theory Spec2Isabelle
  imports Main "HOL-Library.Sublist"
begin

section \<open>JavaScript values and the host environment\<close>

text \<open>
  The monitor of \<^verbatim>\<open>api-monitor-standalone.js\<close> is a class \<^verbatim>\<open>APIMonitor\<close> that runs inside a
  web page. The file holds two copies of the class; the model follows the first one. The
  second copy does not parse (its \<^verbatim>\<open>xhr.send\<close> ends an arrow function with \<^verbatim>\<open>}.bind(this)\<close>), so
  no code of it ever runs and nothing of it is modelled. Modelled are the URL classifier, the
  payload parser, the record builder, the log with its storage, the event bus, \<^verbatim>\<open>download\<close>,
  the lifecycle with the part of \<^verbatim>\<open>createUI\<close> that can raise, and the wrappers of
  \<^verbatim>\<open>XMLHttpRequest\<close> with whole requests through them, on a new object and on one used before.
  The URL given to \<^verbatim>\<open>open\<close> is a string. Of the other channels (fetch, script tags) only the
  installation of their wrappers and observers is modelled; \<^verbatim>\<open>mergeConfig\<close> is not: a
  configuration here is the merged one.

  Values the monitor stores are JavaScript values; numbers are restricted to integers here.
  \<^verbatim>\<open>undefined\<close> is a value of its own, since \<^verbatim>\<open>parseData\<close> and \<^verbatim>\<open>triggerEvent\<close> receive it.
\<close>

datatype jsval =
    JUndefined
  | JNull
  | JBool bool
  | JNum int
  | JStr string
  | JArr "jsval list"
  | JObj "(string \<times> jsval) list"

text \<open>
  The built-ins of the browser that the source calls are not code of the repository. They
  are parameters of the model:
  \<^item> \<open>URL_new\<close> is \<^verbatim>\<open>new URL(url)\<close>, giving \<^verbatim>\<open>(hostname, pathname)\<close>, or \<open>None\<close> when the
    constructor throws;
  \<^item> \<open>JSON_parse\<close> is \<^verbatim>\<open>JSON.parse\<close>, \<open>None\<close> when it throws;
  \<^item> \<open>JSON_stringify v n\<close> is \<^verbatim>\<open>JSON.stringify(v, null, n)\<close> (\<open>n = 0\<close> for the one-argument
    call), \<open>None\<close> when it throws;
  \<^item> \<open>location_hostname\<close> and \<open>location_pathname\<close> are the fields of \<^verbatim>\<open>window.location\<close>;
  \<^item> \<open>has_PerformanceObserver\<close> says whether \<^verbatim>\<open>PerformanceObserver\<close> is defined;
  \<^item> \<open>document_body\<close> says whether \<^verbatim>\<open>document.body\<close> is there when the constructor runs.
\<close>

record host =
  URL_new :: "string \<Rightarrow> (string \<times> string) option"
  JSON_parse :: "string \<Rightarrow> jsval option"
  JSON_stringify :: "jsval \<Rightarrow> nat \<Rightarrow> string option"
  location_hostname :: string
  location_pathname :: string
  has_PerformanceObserver :: bool
  document_body :: bool

text \<open>JavaScript truthiness of a value (\<^verbatim>\<open>!data\<close> is its negation).\<close>

fun truthy :: "jsval \<Rightarrow> bool" where
  "truthy JUndefined = False"
| "truthy JNull = False"
| "truthy (JBool b) = b"
| "truthy (JNum n) = (n \<noteq> 0)"
| "truthy (JStr s) = (s \<noteq> [])"
| "truthy (JArr xs) = True"
| "truthy (JObj kvs) = True"

subsection \<open>String and array primitives\<close>

text \<open>\<^verbatim>\<open>s.includes(p)\<close>: \<open>p\<close> occurs in \<open>s\<close> as a contiguous run of characters.\<close>

fun js_includes :: "string \<Rightarrow> string \<Rightarrow> bool" where
  "js_includes [] p = (p = [])"
| "js_includes (c # s) p = (prefix p (c # s) \<or> js_includes s p)"

text \<open>\<^verbatim>\<open>s.startsWith(p)\<close>.\<close>

definition startsWith :: "string \<Rightarrow> string \<Rightarrow> bool" where
  "startsWith s p = (take (length p) s = p)"

text \<open>\<^verbatim>\<open>s.lastIndexOf(c)\<close> for a one-character search string: the index of the last
  occurrence, or \<open>-1\<close>.\<close>

definition lastIndexOf :: "string \<Rightarrow> char \<Rightarrow> int" where
  "lastIndexOf s c =
     (if c \<in> set s
      then int (length s) - 1 - int (length (takeWhile (\<lambda>x. x \<noteq> c) (rev s)))
      else - 1)"

text \<open>\<^verbatim>\<open>s.substring(a, b)\<close>: both indices are clamped to \<open>[0, length s]\<close> and swapped when
  \<open>a > b\<close>.\<close>

definition substring :: "string \<Rightarrow> int \<Rightarrow> int \<Rightarrow> string" where
  "substring s a b =
     (let n = int (length s);
          a' = max 0 (min a n);
          b' = max 0 (min b n);
          lo = min a' b';
          hi = max a' b'
      in take (nat (hi - lo)) (drop (nat lo) s))"

text \<open>\<^verbatim>\<open>xs.slice(start)\<close>: a negative \<open>start\<close> counts from the end, and \<open>-0\<close> is \<open>0\<close>.\<close>

definition slice :: "'a list \<Rightarrow> int \<Rightarrow> 'a list" where
  "slice xs start =
     (let len = int (length xs);
          k = (if start < 0 then max (len + start) 0 else min start len)
      in drop (nat k) xs)"

section \<open>URL classifier and payload parser\<close>

record url_info =
  domain :: string
  path :: string

datatype js_error = TypeError | SyntaxError | QuotaExceededError

text \<open>The body of the \<^verbatim>\<open>try\<close> block of \<^verbatim>\<open>parseURL\<close>; \<open>Inl\<close> is a thrown exception.\<close>

definition parseURL_try :: "host \<Rightarrow> string \<Rightarrow> js_error + url_info" where
  "parseURL_try h url =
     (if startsWith url ''http''
      then (case URL_new h url of
              None \<Rightarrow> Inl TypeError
            | Some urlObj \<Rightarrow> Inr \<lparr>domain = fst urlObj, path = snd urlObj\<rparr>)
      else Inr \<lparr>domain = location_hostname h,
                path = (if startsWith url ''/''
                        then url
                        else (let currentPath = location_pathname h;
                                  basePath = substring currentPath 0
                                               (lastIndexOf currentPath (CHR ''/'') + 1)
                              in basePath @ url))\<rparr>)"

definition parseURL :: "host \<Rightarrow> string \<Rightarrow> url_info" where
  "parseURL h url =
     (case parseURL_try h url of
        Inr info \<Rightarrow> info
      | Inl e \<Rightarrow> \<lparr>domain = (if location_hostname h \<noteq> [] then location_hostname h
                              else ''unknown''),
                    path = url\<rparr>)"

definition parseData :: "host \<Rightarrow> jsval \<Rightarrow> jsval" where
  "parseData h data =
     (if \<not> truthy data then JNull
      else (case data of
              JStr s \<Rightarrow> (case JSON_parse h s of Some v \<Rightarrow> v | None \<Rightarrow> data)
            | _ \<Rightarrow> data))"

section \<open>Configuration\<close>

text \<open>The three groups of \<^verbatim>\<open>captureFields\<close> toggles, flattened into one record.\<close>

record captureFields =
  request_url :: bool
  request_method :: bool
  request_headers :: bool
  request_payload :: bool
  request_queryParams :: bool
  response_status :: bool
  response_headers :: bool
  response_body :: bool
  response_timing :: bool
  metadata_timestamp :: bool
  metadata_domain :: bool
  metadata_path :: bool
  metadata_duration :: bool
  metadata_initiator :: bool

text \<open>\<^verbatim>\<open>this.config\<close>, after \<^verbatim>\<open>mergeConfig\<close>. \<open>maxStoredRequests\<close> is whatever number the
  caller supplied: nothing in the source validates it.\<close>

record config =
  targetPaths :: "string list"
  allowedDomains :: "string list"
  maxStoredRequests :: int
  capture :: captureFields
  storageKey :: string
  enableUI :: bool
  enableLog :: bool
  autoStart :: bool

definition DEFAULT_CONFIG :: config where
  "DEFAULT_CONFIG =
     \<lparr>targetPaths = [], allowedDomains = [], maxStoredRequests = 100,
      capture = \<lparr>request_url = True, request_method = True, request_headers = True,
                 request_payload = True, request_queryParams = True,
                 response_status = True, response_headers = True, response_body = True,
                 response_timing = True,
                 metadata_timestamp = True, metadata_domain = True, metadata_path = True,
                 metadata_duration = True, metadata_initiator = True\<rparr>,
      storageKey = ''api_monitor_requests'',
      enableUI = True, enableLog = True, autoStart = True\<rparr>"

section \<open>The page: monitor fields and the parts of the window the monitor touches\<close>

text \<open>
  \<^verbatim>\<open>localStorage\<close>: the stored items and the quota of the origin, counted in characters of
  keys and values. \<^verbatim>\<open>setItem\<close> throws \<^verbatim>\<open>QuotaExceededError\<close> when the new contents would not
  fit; \<^verbatim>\<open>saveToStorage\<close> catches it.
\<close>

record storage =
  items :: "(string \<times> string) list"
  quota :: nat

definition getItem :: "storage \<Rightarrow> string \<Rightarrow> string option" where
  "getItem st k = map_of (items st) k"

fun put_item :: "string \<Rightarrow> string \<Rightarrow> (string \<times> string) list \<Rightarrow> (string \<times> string) list" where
  "put_item k v [] = [(k, v)]"
| "put_item k v ((k', v') # kvs) =
     (if k = k' then (k, v) # kvs else (k', v') # put_item k v kvs)"

definition usage :: "(string \<times> string) list \<Rightarrow> nat" where
  "usage kvs = sum_list (map (\<lambda>kv. length (fst kv) + length (snd kv)) kvs)"

definition setItem :: "storage \<Rightarrow> string \<Rightarrow> string \<Rightarrow> js_error + storage" where
  "setItem st k v =
     (let items' = put_item k v (items st)
      in if usage items' > quota st then Inl QuotaExceededError
         else Inr (st\<lparr>items := items'\<rparr>))"

text \<open>
  Each assignment to \<^verbatim>\<open>window.XMLHttpRequest\<close> or \<^verbatim>\<open>window.fetch\<close> puts a wrapper around
  the value found there. A wrapper of \<^verbatim>\<open>interceptXHR\<close> or \<^verbatim>\<open>interceptFetch\<close> is \<open>Capture\<close>;
  one of \<^verbatim>\<open>interceptAllNetworkRequests\<close>, which only logs, is \<open>Passthrough\<close>. The lists
  below hold the wrappers outermost first; the empty list is the native primitive.
\<close>

datatype layer = Capture | Passthrough

datatype observer = PerformanceObserver | MutationObserver

text \<open>
  Listeners on \<^verbatim>\<open>window\<close>. Functions of the page are named by numbers. \<open>Wrapper cb\<close> is
  the arrow function that \<^verbatim>\<open>on\<close> creates around the callback \<open>cb\<close>; \<open>Direct f\<close> is the
  function \<open>f\<close> registered as it is.
\<close>

datatype listener = Wrapper nat | Direct nat

datatype call_arg = Detail jsval | EventObject string jsval

text \<open>The lines \<^verbatim>\<open>this.log\<close> writes, one constructor for each call site modelled.\<close>

datatype message =
    Initialised
  | MonitoredPaths "string list"
  | AllowedDomains "string list"
  | AlreadyRunning
  | Started
  | NotRunning
  | Stopped
  | InterceptingXHR
  | InterceptingFetch
  | PerformanceObserverSet
  | InterceptingJSONP
  | InterceptingScriptTags
  | ListeningGlobally
  | XHROpen string string
  | GlobalXHR string string
  | XHRSend string string
  | XHRCheck string bool bool
  | MonitoringXHR string string
  | Matched bool bool
  | Building string string
  | Saving jsval
  | CapturedSoFar nat
  | Saved nat
  | SaveToStorageFailed
  | LoadFromStorageFailed
  | NoDataToDownload
  | DownloadSucceeded
  | DownloadFailed
  | XHRResponseFailed
  | BodyMissing
  | UIExists

text \<open>
  The state: the four fields of the \<^verbatim>\<open>APIMonitor\<close> instance, then the window. \<open>calls\<close>
  records each invocation of a function of the page by an event dispatch, \<open>dispatched\<close>
  each event given to \<^verbatim>\<open>window.dispatchEvent\<close>, \<open>downloads\<close> each file offered by
  \<^verbatim>\<open>download\<close> as (name, contents). Of the inspection panel the state keeps one bit,
  \<open>ui_elements\<close>: the button, the panel and its content element are in the document
  (\<^verbatim>\<open>createUI\<close> adds the three together). What the elements show is not part of the state.
\<close>

record page =
  config :: config
  capturedRequests :: "jsval list"
  isMonitoring :: bool
  observers :: "observer list"
  XMLHttpRequest :: "layer list"
  fetch :: "layer list"
  createElement :: nat
  localStorage :: storage
  listeners :: "(string \<times> listener) list"
  dispatched :: "(string \<times> jsval) list"
  calls :: "(nat \<times> call_arg) list"
  downloads :: "(string \<times> string) list"
  ui_elements :: bool
  console :: "message list"

definition log :: "page \<Rightarrow> message \<Rightarrow> page" where
  "log p m = (if enableLog (config p) then p\<lparr>console := console p @ [m]\<rparr> else p)"

subsection \<open>Event bus\<close>

fun invoke :: "string \<Rightarrow> jsval \<Rightarrow> listener \<Rightarrow> nat \<times> call_arg" where
  "invoke ty detail (Wrapper cb) = (cb, Detail detail)"
| "invoke ty detail (Direct f) = (f, EventObject ty detail)"

text \<open>\<^verbatim>\<open>window.dispatchEvent\<close> of a \<^verbatim>\<open>CustomEvent\<close>: the listeners of that type run in the
  order of their registration.\<close>

definition dispatchEvent :: "page \<Rightarrow> string \<Rightarrow> jsval \<Rightarrow> page" where
  "dispatchEvent p ty detail =
     p\<lparr>dispatched := dispatched p @ [(ty, detail)],
       calls := calls p @ map (invoke ty detail \<circ> snd) (filter (\<lambda>l. fst l = ty) (listeners p))\<rparr>"

text \<open>An absent \<^verbatim>\<open>detail\<close> member of the event's dictionary reads back as \<^verbatim>\<open>null\<close>.\<close>

definition triggerEvent :: "page \<Rightarrow> string \<Rightarrow> jsval \<Rightarrow> page" where
  "triggerEvent p eventName data =
     dispatchEvent p (''apiMonitor:'' @ eventName) (if data = JUndefined then JNull else data)"

definition on :: "page \<Rightarrow> string \<Rightarrow> nat \<Rightarrow> page" where
  "on p eventName callback =
     p\<lparr>listeners := listeners p @ [(''apiMonitor:'' @ eventName, Wrapper callback)]\<rparr>"

definition off :: "page \<Rightarrow> string \<Rightarrow> nat \<Rightarrow> page" where
  "off p eventName callback =
     p\<lparr>listeners := remove1 (''apiMonitor:'' @ eventName, Direct callback) (listeners p)\<rparr>"

subsection \<open>Persistent log\<close>

definition saveToStorage :: "host \<Rightarrow> page \<Rightarrow> page" where
  "saveToStorage h p =
     (case JSON_stringify h (JArr (capturedRequests p)) 0 of
        None \<Rightarrow> log p SaveToStorageFailed
      | Some text \<Rightarrow>
          (case setItem (localStorage p) (storageKey (config p)) text of
             Inl e \<Rightarrow> log p SaveToStorageFailed
           | Inr st \<Rightarrow> p\<lparr>localStorage := st\<rparr>))"

text \<open>
  \<^verbatim>\<open>loadFromStorage\<close> assigns whatever \<^verbatim>\<open>JSON.parse\<close> returns. The log of the model is a
  list, so a stored text that parses to something other than an array has no image here:
  the result is \<open>None\<close>.
\<close>

definition loadFromStorage :: "host \<Rightarrow> page \<Rightarrow> page option" where
  "loadFromStorage h p =
     (case getItem (localStorage p) (storageKey (config p)) of
        None \<Rightarrow> Some p
      | Some stored \<Rightarrow>
          if stored = [] then Some p
          else (case JSON_parse h stored of
                  None \<Rightarrow> Some ((log p LoadFromStorageFailed)\<lparr>capturedRequests := []\<rparr>)
                | Some (JArr rs) \<Rightarrow> Some (p\<lparr>capturedRequests := rs\<rparr>)
                | Some _ \<Rightarrow> None))"

definition saveRequest :: "host \<Rightarrow> page \<Rightarrow> jsval \<Rightarrow> page" where
  "saveRequest h p data =
     (let p1 = log (log p (Saving data)) (CapturedSoFar (length (capturedRequests p)));
          pushed = capturedRequests p1 @ [data];
          p2 = p1\<lparr>capturedRequests :=
                    (if int (length pushed) > maxStoredRequests (config p1)
                     then slice pushed (- maxStoredRequests (config p1))
                     else pushed)\<rparr>;
          p3 = saveToStorage h p2;
          p4 = triggerEvent p3 ''requestCaptured'' data
      in log p4 (Saved (length (capturedRequests p4))))"

definition clear :: "host \<Rightarrow> page \<Rightarrow> page" where
  "clear h p =
     (let p1 = p\<lparr>capturedRequests := []\<rparr>;
          p2 = saveToStorage h p1
      in triggerEvent p2 ''dataCleared'' JUndefined)"

definition getRequests :: "page \<Rightarrow> jsval list" where
  "getRequests p = capturedRequests p"

text \<open>
  \<open>isoNow\<close> is \<^verbatim>\<open>new Date().toISOString()\<close>; an absent or empty \<open>filename\<close> gives the
  default name. Of the statements in the \<^verbatim>\<open>try\<close> block of \<^verbatim>\<open>download\<close> the serialisation is the
  one that can throw here; the file is offered once the anchor is clicked.
\<close>

definition download_name :: "string option \<Rightarrow> string \<Rightarrow> string" where
  "download_name filename isoNow =
     (case filename of
        Some f \<Rightarrow> if f \<noteq> [] then f
                  else ''api_monitor_data_''
                       @ map (\<lambda>c. if c = CHR '':'' then CHR ''-'' else c) (take 19 isoNow)
                       @ ''.json''
      | None \<Rightarrow> ''api_monitor_data_''
                 @ map (\<lambda>c. if c = CHR '':'' then CHR ''-'' else c) (take 19 isoNow)
                 @ ''.json'')"

definition download :: "host \<Rightarrow> page \<Rightarrow> string option \<Rightarrow> string \<Rightarrow> page" where
  "download h p filename isoNow =
     (if length (capturedRequests p) = 0 then log p NoDataToDownload
      else (case JSON_stringify h (JArr (capturedRequests p)) 2 of
              None \<Rightarrow> log p DownloadFailed
            | Some dataStr \<Rightarrow>
                log (p\<lparr>downloads := downloads p @ [(download_name filename isoNow, dataStr)]\<rparr>)
                    DownloadSucceeded))"

subsection \<open>Inspection panel\<close>

text \<open>
  \<^verbatim>\<open>renderRequestList\<close> puts properties of every element of the log into template literals,
  compares \<^verbatim>\<open>req.status\<close> with numbers and gives \<^verbatim>\<open>req.timestamp\<close> to \<^verbatim>\<open>new Date\<close>. Each of
  these converts the value to a primitive. For the values of the model the conversion throws
  \<^verbatim>\<open>TypeError\<close> on an object that has a property \<^verbatim>\<open>toString\<close> of its own (it is not a
  function, and \<^verbatim>\<open>valueOf\<close> gives no primitive), and on an array (converted by \<^verbatim>\<open>join\<close>, which
  skips \<^verbatim>\<open>null\<close> and \<^verbatim>\<open>undefined\<close>) with such an element.
\<close>

fun printable :: "jsval \<Rightarrow> bool" where
  "printable (JObj kvs) = (''toString'' \<notin> fst ` set kvs)"
| "printable (JArr vs) = list_all (\<lambda>v. v = JNull \<or> v = JUndefined \<or> printable v) vs"
| "printable v = True"

text \<open>\<^verbatim>\<open>req[k]\<close> for a value \<open>req\<close> other than \<^verbatim>\<open>null\<close> and \<^verbatim>\<open>undefined\<close>, and a key \<open>k\<close> that no
  prototype defines; a list of properties holds each key once.\<close>

definition property :: "jsval \<Rightarrow> string \<Rightarrow> jsval" where
  "property req k =
     (case req of
        JObj kvs \<Rightarrow> (case map_of kvs k of Some v \<Rightarrow> v | None \<Rightarrow> JUndefined)
      | _ \<Rightarrow> JUndefined)"

text \<open>
  \<open>renders req\<close>: the body of the loop of \<^verbatim>\<open>renderRequestList\<close> runs through on the element
  \<open>req\<close>. It throws on \<^verbatim>\<open>null\<close> (at \<^verbatim>\<open>req.status\<close>) and when one of \<^verbatim>\<open>req.status\<close>,
  \<^verbatim>\<open>req.method\<close>, \<^verbatim>\<open>req.path || req.url\<close>, \<^verbatim>\<open>req.timestamp\<close>, \<^verbatim>\<open>req.duration\<close> has no primitive
  (\<^verbatim>\<open>new URL(req.url)\<close> is inside a \<^verbatim>\<open>try\<close> of its own).
\<close>

definition renders :: "jsval \<Rightarrow> bool" where
  "renders req =
     (req \<noteq> JNull \<and> req \<noteq> JUndefined
      \<and> printable (property req ''status'') \<and> printable (property req ''method'')
      \<and> printable (if truthy (property req ''path'') then property req ''path''
                    else property req ''url'')
      \<and> printable (property req ''timestamp'') \<and> printable (property req ''duration''))"

text \<open>\<^verbatim>\<open>renderRequestList\<close>: nothing to do without the content element or on an empty log;
  otherwise the loop runs over the reversed log. \<open>Inl\<close> is a thrown exception.\<close>

definition renderRequestList :: "page \<Rightarrow> js_error + page" where
  "renderRequestList p =
     (if \<not> ui_elements p then Inr p
      else if length (capturedRequests p) = 0 then Inr p
      else if list_all renders (rev (capturedRequests p)) then Inr p
      else Inl TypeError)"

text \<open>
  \<^verbatim>\<open>createUI\<close>. Without \<^verbatim>\<open>document.body\<close> it logs and schedules itself again in 100 ms; that
  later run is outside the constructor and is not modelled. With the button already in the
  document it logs and returns. Otherwise it adds the button, the panel (\<^verbatim>\<open>createPanel\<close>) and
  calls \<^verbatim>\<open>renderRequestList\<close>, whose exception it does not catch.
\<close>

definition createUI :: "host \<Rightarrow> page \<Rightarrow> js_error + page" where
  "createUI h p =
     (if \<not> document_body h then Inr (log p BodyMissing)
      else if ui_elements p then Inr (log p UIExists)
      else renderRequestList (p\<lparr>ui_elements := True\<rparr>))"

text \<open>
  \<^verbatim>\<open>saveRequest\<close> above calls \<^verbatim>\<open>updateBadgeCount\<close> when \<open>enableUI\<close> is set, and \<^verbatim>\<open>clear\<close> calls it
  and \<^verbatim>\<open>renderRequestList\<close>: \<^verbatim>\<open>updateBadgeCount\<close> writes a number into the badge, and
  \<^verbatim>\<open>renderRequestList\<close> returns before its loop on the empty log that \<^verbatim>\<open>clear\<close> leaves, so neither
  changes the state nor throws there.
\<close>

section \<open>Record builder\<close>

text \<open>The object literal a completion hook hands to \<^verbatim>\<open>buildRequestData\<close>.\<close>

record exchange =
  data_method :: jsval
  data_url :: string
  data_body :: jsval
  data_headers :: jsval
  data_status :: jsval
  data_responseText :: jsval
  data_responseHeaders :: jsval
  data_duration :: int

text \<open>
  \<open>rid\<close> is the value of \<^verbatim>\<open>generateId()\<close> and \<open>ts\<close> that of \<^verbatim>\<open>new Date().toISOString()\<close>: both
  come from the clock and the random generator of the host. The result is the object with its
  properties in the order of their assignment.
\<close>

definition buildRequestData ::
    "host \<Rightarrow> page \<Rightarrow> string \<Rightarrow> exchange \<Rightarrow> string \<Rightarrow> string \<Rightarrow> page \<times> jsval" where
  "buildRequestData h p type data rid ts =
     (let p1 = log p (Building type (data_url data));
          c = capture (config p);
          urlInfo = parseURL h (data_url data)
      in (p1, JObj
           ([(''id'', JStr rid), (''type'', JStr type)]
            @ (if request_method c then [(''method'', data_method data)] else [])
            @ (if request_url c then [(''url'', JStr (data_url data))] else [])
            @ (if request_payload c then [(''request'', parseData h (data_body data))] else [])
            @ (if request_headers c \<and> truthy (data_headers data)
               then [(''requestHeaders'', data_headers data)] else [])
            @ (if response_status c then [(''status'', data_status data)] else [])
            @ (if response_body c
               then [(''response'', parseData h (data_responseText data))] else [])
            @ (if response_headers c \<and> truthy (data_responseHeaders data)
               then [(''responseHeaders'', data_responseHeaders data)] else [])
            @ (if metadata_timestamp c then [(''timestamp'', JStr ts)] else [])
            @ (if metadata_domain c then [(''domain'', JStr (domain urlInfo))] else [])
            @ (if metadata_path c then [(''path'', JStr (path urlInfo))] else [])
            @ (if metadata_duration c then [(''duration'', JNum (data_duration data))] else [])
            @ (if metadata_initiator c then [(''initiator'', JStr type)] else []))))"

section \<open>Interception layer\<close>

text \<open>The two tests of \<^verbatim>\<open>xhr.send\<close>, named as its local constants are.\<close>

definition hasTargetPath :: "config \<Rightarrow> string \<Rightarrow> bool" where
  "hasTargetPath cfg u = list_ex (\<lambda>path. js_includes u path) (targetPaths cfg)"

definition hasAllowedDomain :: "host \<Rightarrow> config \<Rightarrow> string \<Rightarrow> bool" where
  "hasAllowedDomain h cfg u =
     (let urlInfo = parseURL h u
      in length (allowedDomains cfg) = 0
         \<or> list_ex (\<lambda>d. js_includes (domain urlInfo) d) (allowedDomains cfg))"

text \<open>The condition of the \<^verbatim>\<open>if\<close> in \<^verbatim>\<open>xhr.send\<close>. A string is truthy when it is not empty.\<close>

definition send_gate :: "host \<Rightarrow> config \<Rightarrow> string \<Rightarrow> bool" where
  "send_gate h cfg u = (u \<noteq> [] \<and> hasTargetPath cfg u \<and> hasAllowedDomain h cfg u)"

text \<open>
  An instance made by \<^verbatim>\<open>new window.XMLHttpRequest()\<close>: every wrapper in place at that moment
  has replaced \<^verbatim>\<open>open\<close> and \<^verbatim>\<open>send\<close> of the one native object, so a call runs the wrappers
  outermost first and then the native method. All \<open>Capture\<close> wrappers write the same
  properties \<^verbatim>\<open>_url\<close>, \<^verbatim>\<open>_method\<close>, \<^verbatim>\<open>_startTime\<close>, \<^verbatim>\<open>_body\<close> of that object. \<open>load_listeners\<close>
  counts the completion hooks attached by \<^verbatim>\<open>send\<close>: nothing removes one, so the object
  keeps them for every later request made with it. \<open>xhr_responseType\<close> is the attribute
  \<^verbatim>\<open>responseType\<close> of the object, which the page sets.
\<close>

record xhr =
  wrappers :: "layer list"
  xhr_url :: string
  xhr_method :: string
  xhr_startTime :: int
  xhr_body :: jsval
  xhr_responseType :: string
  load_listeners :: nat

definition new_XMLHttpRequest :: "page \<Rightarrow> xhr" where
  "new_XMLHttpRequest p =
     \<lparr>wrappers = XMLHttpRequest p, xhr_url = [], xhr_method = [], xhr_startTime = 0,
      xhr_body = JUndefined, xhr_responseType = [], load_listeners = 0\<rparr>"

text \<open>An assignment to \<^verbatim>\<open>xhr.responseType\<close>: a value outside the enumeration is ignored.\<close>

definition set_responseType :: "xhr \<Rightarrow> string \<Rightarrow> xhr" where
  "set_responseType x v =
     (if v \<in> set ['''', ''arraybuffer'', ''blob'', ''document'', ''json'', ''text'']
      then x\<lparr>xhr_responseType := v\<rparr> else x)"

text \<open>Reading \<^verbatim>\<open>xhr.responseText\<close> throws \<^verbatim>\<open>InvalidStateError\<close> unless \<^verbatim>\<open>responseType\<close> is the
  empty string or \<^verbatim>\<open>text\<close>.\<close>

definition responseText_readable :: "xhr \<Rightarrow> bool" where
  "responseText_readable x = (xhr_responseType x = [] \<or> xhr_responseType x = ''text'')"

fun open_layer :: "string \<Rightarrow> string \<Rightarrow> int \<Rightarrow> layer \<Rightarrow> page \<times> xhr \<Rightarrow> page \<times> xhr" where
  "open_layer method u now Capture (p, x) =
     (log p (XHROpen method u), x\<lparr>xhr_url := u, xhr_method := method, xhr_startTime := now\<rparr>)"
| "open_layer method u now Passthrough (p, x) = (log p (GlobalXHR method u), x)"

definition xhr_open :: "page \<Rightarrow> xhr \<Rightarrow> string \<Rightarrow> string \<Rightarrow> int \<Rightarrow> page \<times> xhr" where
  "xhr_open p x method u now = fold (open_layer method u now) (wrappers x) (p, x)"

fun send_layer :: "host \<Rightarrow> jsval \<Rightarrow> layer \<Rightarrow> page \<times> xhr \<Rightarrow> page \<times> xhr" where
  "send_layer h body Capture (p, x) =
     (let p1 = log p (XHRSend (xhr_method x) (xhr_url x));
          tp = hasTargetPath (config p) (xhr_url x);
          ad = hasAllowedDomain h (config p) (xhr_url x);
          p2 = log p1 (XHRCheck (xhr_url x) tp ad)
      in if send_gate h (config p) (xhr_url x)
         then (log (log p2 (MonitoringXHR (xhr_method x) (xhr_url x))) (Matched tp ad),
               x\<lparr>xhr_body := body, load_listeners := Suc (load_listeners x)\<rparr>)
         else (p2, x))"
| "send_layer h body Passthrough (p, x) = (p, x)"

definition xhr_send :: "host \<Rightarrow> page \<Rightarrow> xhr \<Rightarrow> jsval \<Rightarrow> page \<times> xhr" where
  "xhr_send h p x body = fold (send_layer h body) (wrappers x) (p, x)"

text \<open>
  One completion hook, run at the \<^verbatim>\<open>load\<close> event with the final status, response text and
  header block. \<open>stamp\<close> is the pair \<open>(rid, ts)\<close> the host gives this run. The hook reads
  \<^verbatim>\<open>xhr.responseText\<close> while it builds the argument of \<^verbatim>\<open>buildRequestData\<close>; when that throws,
  the \<^verbatim>\<open>catch\<close> logs and nothing is built or saved. \<^verbatim>\<open>buildRequestData\<close> and \<^verbatim>\<open>saveRequest\<close>
  themselves do not throw.
\<close>

definition load_hook ::
    "host \<Rightarrow> xhr \<Rightarrow> int \<Rightarrow> string \<Rightarrow> string \<Rightarrow> int \<Rightarrow> string \<times> string \<Rightarrow> page \<Rightarrow> page" where
  "load_hook h x status responseText responseHeaders now stamp p =
     (if \<not> responseText_readable x then log p XHRResponseFailed
      else (let duration = now - xhr_startTime x;
                (p1, requestData) =
                   buildRequestData h p ''xhr''
                     \<lparr>data_method = JStr (xhr_method x), data_url = xhr_url x,
                      data_body = xhr_body x, data_headers = JUndefined,
                      data_status = JNum status, data_responseText = JStr responseText,
                      data_responseHeaders = JStr responseHeaders, data_duration = duration\<rparr>
                     (fst stamp) (snd stamp)
            in saveRequest h p1 requestData))"

text \<open>The \<^verbatim>\<open>load\<close> event: the hooks run in the order \<^verbatim>\<open>send\<close> attached them; the \<open>k\<close>-th one
  gets \<open>stamp k\<close>.\<close>

definition xhr_load ::
    "host \<Rightarrow> page \<Rightarrow> xhr \<Rightarrow> int \<Rightarrow> string \<Rightarrow> string \<Rightarrow> int \<Rightarrow> (nat \<Rightarrow> string \<times> string) \<Rightarrow> page" where
  "xhr_load h p x status responseText responseHeaders now stamp =
     fold (\<lambda>k. load_hook h x status responseText responseHeaders now (stamp k))
          [0 ..< load_listeners x] p"

text \<open>
  A request of the page with the object \<open>x\<close>: \<^verbatim>\<open>open\<close>, an assignment to \<^verbatim>\<open>responseType\<close>,
  \<^verbatim>\<open>send\<close>, and the \<^verbatim>\<open>load\<close> event. The result is the state and the object, which the page can
  use for its next request.
\<close>

record request =
  req_method :: string
  req_url :: string
  req_body :: jsval
  req_responseType :: string
  req_start :: int
  resp_status :: int
  resp_text :: string
  resp_headers :: string
  resp_time :: int

definition xhr_request ::
    "host \<Rightarrow> page \<Rightarrow> xhr \<Rightarrow> request \<Rightarrow> (nat \<Rightarrow> string \<times> string) \<Rightarrow> page \<times> xhr" where
  "xhr_request h p x r stamp =
     (let (p1, x1) = xhr_open p x (req_method r) (req_url r) (req_start r);
          (p2, x2) = xhr_send h p1 (set_responseType x1 (req_responseType r)) (req_body r)
      in (xhr_load h p2 x2 (resp_status r) (resp_text r) (resp_headers r) (resp_time r) stamp,
          x2))"

text \<open>A whole exchange of the page: the request is made with a new object.\<close>

definition xhr_exchange :: "host \<Rightarrow> page \<Rightarrow> request \<Rightarrow> (nat \<Rightarrow> string \<times> string) \<Rightarrow> page" where
  "xhr_exchange h p r stamp = fst (xhr_request h p (new_XMLHttpRequest p) r stamp)"

subsection \<open>Lifecycle\<close>

definition interceptXHR :: "page \<Rightarrow> page" where
  "interceptXHR p = (log p InterceptingXHR)\<lparr>XMLHttpRequest := Capture # XMLHttpRequest p\<rparr>"

definition interceptFetch :: "page \<Rightarrow> page" where
  "interceptFetch p = (log p InterceptingFetch)\<lparr>fetch := Capture # fetch p\<rparr>"

definition setupPerformanceObserver :: "host \<Rightarrow> page \<Rightarrow> page" where
  "setupPerformanceObserver h p =
     (if has_PerformanceObserver h
      then log (p\<lparr>observers := observers p @ [PerformanceObserver]\<rparr>) PerformanceObserverSet
      else p)"

definition interceptJSONP :: "page \<Rightarrow> page" where
  "interceptJSONP p = (log p InterceptingJSONP)\<lparr>createElement := Suc (createElement p)\<rparr>"

definition interceptScriptTags :: "page \<Rightarrow> page" where
  "interceptScriptTags p =
     (log p InterceptingScriptTags)\<lparr>observers := observers p @ [MutationObserver]\<rparr>"

definition interceptAllNetworkRequests :: "host \<Rightarrow> page \<Rightarrow> page" where
  "interceptAllNetworkRequests h p =
     (let p1 = log p ListeningGlobally;
          p2 = p1\<lparr>fetch := Passthrough # fetch p1,
                  XMLHttpRequest := Passthrough # XMLHttpRequest p1\<rparr>
      in if has_PerformanceObserver h
         then p2\<lparr>observers := observers p2 @ [PerformanceObserver]\<rparr>
         else p2)"

definition start :: "host \<Rightarrow> page \<Rightarrow> page" where
  "start h p =
     (if isMonitoring p then log p AlreadyRunning
      else (let p1 = interceptXHR p;
                p2 = interceptFetch p1;
                p3 = setupPerformanceObserver h p2;
                p4 = interceptJSONP p3;
                p5 = interceptScriptTags p4;
                p6 = interceptAllNetworkRequests h p5
            in log (p6\<lparr>isMonitoring := True\<rparr>) Started))"

definition stop :: "page \<Rightarrow> page" where
  "stop p =
     (if \<not> isMonitoring p then log p NotRunning
      else log (p\<lparr>observers := [], isMonitoring := False\<rparr>) Stopped)"

text \<open>
  The constructor on a freshly loaded page whose \<^verbatim>\<open>localStorage\<close> is \<open>st\<close>. \<open>cfg\<close> is the
  merged configuration. \<^verbatim>\<open>init\<close> logs, starts when \<open>autoStart\<close> is set, and calls \<^verbatim>\<open>createUI\<close>
  when \<open>enableUI\<close> is set. An exception of \<^verbatim>\<open>createUI\<close> leaves the constructor: the result is
  \<open>Inl\<close>, and there is no monitor.
\<close>

definition new_page :: "config \<Rightarrow> storage \<Rightarrow> page" where
  "new_page cfg st =
     \<lparr>config = cfg, capturedRequests = [], isMonitoring = False, observers = [],
      XMLHttpRequest = [], fetch = [], createElement = 0, localStorage = st,
      listeners = [], dispatched = [], calls = [], downloads = [], ui_elements = False,
      console = []\<rparr>"

definition init :: "host \<Rightarrow> page \<Rightarrow> js_error + page" where
  "init h p =
     (let p1 = log p Initialised;
          p2 = log p1 (MonitoredPaths (targetPaths (config p)));
          p3 = log p2 (AllowedDomains (allowedDomains (config p)));
          p4 = (if autoStart (config p) then start h p3 else p3)
      in if enableUI (config p) then createUI h p4 else Inr p4)"

text \<open>\<open>None\<close> is the case that \<open>loadFromStorage\<close> leaves out; \<open>Some (Inl e)\<close> is a constructor
  that throws \<open>e\<close>; \<open>Some (Inr q)\<close> is the monitor \<open>q\<close>.\<close>

definition APIMonitor :: "host \<Rightarrow> config \<Rightarrow> storage \<Rightarrow> (js_error + page) option" where
  "APIMonitor h cfg st =
     (case loadFromStorage h (new_page cfg st) of
        None \<Rightarrow> None
      | Some p \<Rightarrow> Some (init h p))"

section \<open>The gate as the specification words it\<close>




section \<open>A concrete host for the examples\<close>

text \<open>
  The theorems below hold for every host. The examples need one: \<open>browser\<close> is a page at
  \<^verbatim>\<open>https://air.1688.com/app/index.html\<close> with a small model of the three built-ins.

  \<open>URL_model\<close> reads a URL of the plain form \<^verbatim>\<open>scheme://host[:port][/path][?query][#fragment]\<close>
  with a lower-case scheme and throws on everything else (the constructor of a browser
  accepts more and normalises; the examples use none of that).
\<close>

definition is_lower_alpha :: "char \<Rightarrow> bool" where
  "is_lower_alpha c = ((97 :: nat) \<le> of_char c \<and> of_char c \<le> (122 :: nat))"

definition URL_model :: "string \<Rightarrow> (string \<times> string) option" where
  "URL_model s =
     (let scheme = takeWhile (\<lambda>c. c \<noteq> CHR '':'') s;
          rest = drop (length scheme) s
      in if scheme = [] \<or> list_ex (\<lambda>c. \<not> is_lower_alpha c) scheme \<or> \<not> prefix ''://'' rest
         then None
         else (let after = drop 3 rest;
                   authority = takeWhile (\<lambda>c. c \<noteq> CHR ''/'' \<and> c \<noteq> CHR ''?'' \<and> c \<noteq> CHR ''#'') after;
                   rest' = drop (length authority) after;
                   pathname = takeWhile (\<lambda>c. c \<noteq> CHR ''?'' \<and> c \<noteq> CHR ''#'') rest';
                   hostname = takeWhile (\<lambda>c. c \<noteq> CHR '':'') authority
               in if hostname = [] then None
                  else Some (hostname, if pathname = [] then ''/'' else pathname)))"

subsection \<open>Writing JSON text\<close>

text \<open>
  \<open>stringify_model v n\<close> writes \<open>v\<close> as \<^verbatim>\<open>JSON.stringify(v, null, n)\<close> does for values built
  from the constructors of \<open>jsval\<close>: \<^verbatim>\<open>undefined\<close> becomes \<^verbatim>\<open>null\<close> inside an array and
  drops its property inside an object; with \<open>n > 0\<close> every element and property starts a
  line, indented by \<open>n\<close> spaces for each level. Only the quotation mark and the backslash
  are escaped.
\<close>

definition digit_char :: "nat \<Rightarrow> char" where
  "digit_char d = char_of (48 + d)"

fun show_nat :: "nat \<Rightarrow> string" where
  "show_nat n = (if n < 10 then [digit_char n] else show_nat (n div 10) @ [digit_char (n mod 10)])"

declare show_nat.simps [simp del]

definition show_int :: "int \<Rightarrow> string" where
  "show_int i = (if i < 0 then CHR ''-'' # show_nat (nat (- i)) else show_nat (nat i))"

fun quote_chars :: "string \<Rightarrow> string" where
  "quote_chars [] = []"
| "quote_chars (c # cs) =
     (if c = CHR 0x22 \<or> c = CHR 0x5C then CHR 0x5C # c # quote_chars cs else c # quote_chars cs)"

definition quote :: "string \<Rightarrow> string" where
  "quote s = CHR 0x22 # quote_chars s @ [CHR 0x22]"

definition newline :: "nat \<Rightarrow> nat \<Rightarrow> string" where
  "newline n depth = (if n = 0 then [] else CHR 0x0A # replicate (n * depth) CHR '' '')"

fun join :: "string \<Rightarrow> string list \<Rightarrow> string" where
  "join sep [] = []"
| "join sep [x] = x"
| "join sep (x # y # ys) = x @ sep @ join sep (y # ys)"

fun str_value :: "nat \<Rightarrow> nat \<Rightarrow> jsval \<Rightarrow> string"
and str_elements :: "nat \<Rightarrow> nat \<Rightarrow> jsval list \<Rightarrow> string list"
and str_members :: "nat \<Rightarrow> nat \<Rightarrow> (string \<times> jsval) list \<Rightarrow> string list" where
  "str_value n depth JUndefined = ''null''"
| "str_value n depth JNull = ''null''"
| "str_value n depth (JBool b) = (if b then ''true'' else ''false'')"
| "str_value n depth (JNum i) = show_int i"
| "str_value n depth (JStr s) = quote s"
| "str_value n depth (JArr vs) =
     (case str_elements n (Suc depth) vs of
        [] \<Rightarrow> ''[]''
      | es \<Rightarrow> ''['' @ newline n (Suc depth) @ join ('','' @ newline n (Suc depth)) es
              @ newline n depth @ '']'')"
| "str_value n depth (JObj kvs) =
     (case str_members n (Suc depth) kvs of
        [] \<Rightarrow> ''{}''
      | ms \<Rightarrow> ''{'' @ newline n (Suc depth) @ join ('','' @ newline n (Suc depth)) ms
              @ newline n depth @ ''}'')"
| "str_elements n depth [] = []"
| "str_elements n depth (v # vs) = str_value n depth v # str_elements n depth vs"
| "str_members n depth [] = []"
| "str_members n depth ((k, v) # kvs) =
     (if v = JUndefined then str_members n depth kvs
      else (quote k @ (if n = 0 then '':'' else '': '') @ str_value n depth v)
           # str_members n depth kvs)"

text \<open>\<^verbatim>\<open>JSON.stringify\<close> of the top-level \<^verbatim>\<open>undefined\<close> gives no text.\<close>

definition stringify_model :: "jsval \<Rightarrow> nat \<Rightarrow> string option" where
  "stringify_model v n = (if v = JUndefined then None else Some (str_value n 0 v))"

subsection \<open>Reading JSON text\<close>

text \<open>A recursive-descent reader; the first argument bounds the depth of the descent.\<close>

definition is_ws :: "char \<Rightarrow> bool" where
  "is_ws c = (c = CHR '' '' \<or> c = CHR 0x0A \<or> c = CHR 0x0D \<or> c = CHR 0x09)"

definition skip_ws :: "string \<Rightarrow> string" where
  "skip_ws s = dropWhile is_ws s"

definition is_digit :: "char \<Rightarrow> bool" where
  "is_digit c = ((48 :: nat) \<le> of_char c \<and> of_char c \<le> (57 :: nat))"

definition read_nat :: "string \<Rightarrow> nat" where
  "read_nat ds = foldl (\<lambda>a c. 10 * a + (of_char c - 48)) (0 :: nat) ds"

fun read_string :: "string \<Rightarrow> (string \<times> string) option" where
  "read_string [] = None"
| "read_string [c] = (if c = CHR 0x22 then Some ([], []) else None)"
| "read_string (c # d # cs) =
     (if c = CHR 0x22 then Some ([], d # cs)
      else if c = CHR 0x5C
      then (if d = CHR 0x22 \<or> d = CHR 0x5C
            then (case read_string cs of None \<Rightarrow> None | Some (s, r) \<Rightarrow> Some (d # s, r))
            else None)
      else (case read_string (d # cs) of None \<Rightarrow> None | Some (s, r) \<Rightarrow> Some (c # s, r)))"

definition read_number :: "string \<Rightarrow> (jsval \<times> string) option" where
  "read_number s =
     (let neg = (s \<noteq> [] \<and> hd s = CHR ''-'');
          t = (if neg then tl s else s);
          ds = takeWhile is_digit t
      in if ds = [] then None
         else Some (JNum (if neg then - int (read_nat ds) else int (read_nat ds)),
                    drop (length ds) t))"

fun read_value :: "nat \<Rightarrow> string \<Rightarrow> (jsval \<times> string) option"
and read_elements :: "nat \<Rightarrow> string \<Rightarrow> (jsval list \<times> string) option"
and read_members :: "nat \<Rightarrow> string \<Rightarrow> ((string \<times> jsval) list \<times> string) option" where
  "read_value 0 s = None"
| "read_value (Suc n) s =
     (case skip_ws s of
        [] \<Rightarrow> None
      | c # r \<Rightarrow>
          if c = CHR ''n'' then (if prefix ''ull'' r then Some (JNull, drop 3 r) else None)
          else if c = CHR ''t'' then (if prefix ''rue'' r then Some (JBool True, drop 3 r) else None)
          else if c = CHR ''f'' then (if prefix ''alse'' r then Some (JBool False, drop 4 r) else None)
          else if c = CHR 0x22
          then (case read_string r of None \<Rightarrow> None | Some (str, r') \<Rightarrow> Some (JStr str, r'))
          else if c = CHR ''[''
          then (case skip_ws r of
                  [] \<Rightarrow> None
                | d # r' \<Rightarrow> if d = CHR '']'' then Some (JArr [], r')
                            else (case read_elements n r of
                                    None \<Rightarrow> None
                                  | Some (vs, r'') \<Rightarrow> Some (JArr vs, r'')))
          else if c = CHR ''{''
          then (case skip_ws r of
                  [] \<Rightarrow> None
                | d # r' \<Rightarrow> if d = CHR ''}'' then Some (JObj [], r')
                            else (case read_members n r of
                                    None \<Rightarrow> None
                                  | Some (kvs, r'') \<Rightarrow> Some (JObj kvs, r'')))
          else read_number (c # r))"
| "read_elements 0 s = None"
| "read_elements (Suc n) s =
     (case read_value n s of
        None \<Rightarrow> None
      | Some (v, r) \<Rightarrow>
          (case skip_ws r of
             [] \<Rightarrow> None
           | d # r' \<Rightarrow>
               if d = CHR '']'' then Some ([v], r')
               else if d = CHR '',''
               then (case read_elements n r' of
                       None \<Rightarrow> None
                     | Some (vs, r'') \<Rightarrow> Some (v # vs, r''))
               else None))"
| "read_members 0 s = None"
| "read_members (Suc n) s =
     (case skip_ws s of
        [] \<Rightarrow> None
      | q # r0 \<Rightarrow>
          if q \<noteq> CHR 0x22 then None
          else (case read_string r0 of
                  None \<Rightarrow> None
                | Some (k, r1) \<Rightarrow>
                    (case skip_ws r1 of
                       [] \<Rightarrow> None
                     | col # r2 \<Rightarrow>
                         if col \<noteq> CHR '':'' then None
                         else (case read_value n r2 of
                                 None \<Rightarrow> None
                               | Some (v, r3) \<Rightarrow>
                                   (case skip_ws r3 of
                                      [] \<Rightarrow> None
                                    | d # r4 \<Rightarrow>
                                        if d = CHR ''}'' then Some ([(k, v)], r4)
                                        else if d = CHR '',''
                                        then (case read_members n r4 of
                                                None \<Rightarrow> None
                                              | Some (kvs, r5) \<Rightarrow> Some ((k, v) # kvs, r5))
                                        else None)))))"

definition parse_model :: "string \<Rightarrow> jsval option" where
  "parse_model s =
     (case read_value (2 * length s + 2) s of
        None \<Rightarrow> None
      | Some (v, r) \<Rightarrow> if skip_ws r = [] then Some v else None)"

definition browser :: host where
  "browser =
     \<lparr>URL_new = URL_model, JSON_parse = parse_model, JSON_stringify = stringify_model,
      location_hostname = ''air.1688.com'', location_pathname = ''/app/index.html'',
      has_PerformanceObserver = True, document_body = True\<rparr>"

section \<open>Notions used by the properties\<close>

text \<open>\<open>same_but_console p p'\<close>: the two states differ at most in what was logged.\<close>

definition same_but_console :: "page \<Rightarrow> page \<Rightarrow> bool" where
  "same_but_console p p' = (\<exists>c. p' = p\<lparr>console := c\<rparr>)"

text \<open>The number of capturing wrappers in a stack of wrappers.\<close>

definition captures :: "layer list \<Rightarrow> nat" where
  "captures ls = length (filter (\<lambda>l. l = Capture) ls)"

text \<open>The record one completion hook builds (the second component of \<^verbatim>\<open>buildRequestData\<close> in
  \<open>load_hook\<close>).\<close>

definition hook_record ::
    "host \<Rightarrow> page \<Rightarrow> xhr \<Rightarrow> int \<Rightarrow> string \<Rightarrow> string \<Rightarrow> int \<Rightarrow> string \<times> string \<Rightarrow> jsval" where
  "hook_record h p x status responseText responseHeaders now stamp =
     snd (buildRequestData h p ''xhr''
            \<lparr>data_method = JStr (xhr_method x), data_url = xhr_url x,
             data_body = xhr_body x, data_headers = JUndefined,
             data_status = JNum status, data_responseText = JStr responseText,
             data_responseHeaders = JStr responseHeaders,
             data_duration = now - xhr_startTime x\<rparr>
            (fst stamp) (snd stamp))"

text \<open>What \<^verbatim>\<open>saveRequest\<close> does to the log, as a function of the capacity, the log and the new
  record (lemma \<open>saveRequest_log\<close> below).\<close>

definition push_bounded :: "int \<Rightarrow> jsval list \<Rightarrow> jsval \<Rightarrow> jsval list" where
  "push_bounded cap rs d =
     (if int (length (rs @ [d])) > cap then slice (rs @ [d]) (- cap) else rs @ [d])"

text \<open>The record a completion hook builds for the request \<open>r\<close>.\<close>

definition request_record :: "host \<Rightarrow> page \<Rightarrow> request \<Rightarrow> string \<times> string \<Rightarrow> jsval" where
  "request_record h p r stamp =
     hook_record h p
       \<lparr>wrappers = [], xhr_url = req_url r, xhr_method = req_method r,
        xhr_startTime = req_start r, xhr_body = req_body r, xhr_responseType = [],
        load_listeners = 0\<rparr>
       (resp_status r) (resp_text r) (resp_headers r) (resp_time r) stamp"

text \<open>\<open>text_response r\<close>: the page asks for no response type under which \<^verbatim>\<open>responseText\<close>
  cannot be read.\<close>

definition text_response :: "request \<Rightarrow> bool" where
  "text_response r = (req_responseType r \<notin> set [''arraybuffer'', ''blob'', ''document'', ''json''])"


text \<open>\<open>mirrored h p\<close>: the entry of \<^verbatim>\<open>localStorage\<close> under the storage key is the serialised
  in-memory log.\<close>

definition mirrored :: "host \<Rightarrow> page \<Rightarrow> bool" where
  "mirrored h p =
     (case JSON_stringify h (JArr (capturedRequests p)) 0 of
        None \<Rightarrow> False
      | Some text \<Rightarrow> getItem (localStorage p) (storageKey (config p)) = Some text)"

text \<open>\<open>write_accepted h st k rs\<close>: the host serialises the log \<open>rs\<close> and \<^verbatim>\<open>setItem\<close> takes the
  text under the key \<open>k\<close> in the storage \<open>st\<close>.\<close>

definition write_accepted :: "host \<Rightarrow> storage \<Rightarrow> string \<Rightarrow> jsval list \<Rightarrow> bool" where
  "write_accepted h st k rs =
     (case JSON_stringify h (JArr rs) 0 of
        None \<Rightarrow> False
      | Some text \<Rightarrow> (case setItem st k text of Inl e \<Rightarrow> False | Inr st' \<Rightarrow> True))"

subsection \<open>Values that JSON text can carry\<close>

text \<open>
  \<open>json_clean v\<close>: no \<^verbatim>\<open>undefined\<close> at any depth of \<open>v\<close>. These are the values a JSON text
  denotes: \<^verbatim>\<open>JSON.stringify\<close> writes \<^verbatim>\<open>undefined\<close> as \<^verbatim>\<open>null\<close> inside an array and drops a
  property that holds it.
\<close>

fun json_clean :: "jsval \<Rightarrow> bool"
and json_clean_list :: "jsval list \<Rightarrow> bool"
and json_clean_members :: "(string \<times> jsval) list \<Rightarrow> bool" where
  "json_clean JUndefined = False"
| "json_clean JNull = True"
| "json_clean (JBool b) = True"
| "json_clean (JNum i) = True"
| "json_clean (JStr s) = True"
| "json_clean (JArr vs) = json_clean_list vs"
| "json_clean (JObj kvs) = json_clean_members kvs"
| "json_clean_list [] = True"
| "json_clean_list (v # vs) = (json_clean v \<and> json_clean_list vs)"
| "json_clean_members [] = True"
| "json_clean_members ((k, v) # kvs) = (json_clean v \<and> json_clean_members kvs)"


text \<open>The number reader stops at the first character that is not a digit.\<close>

definition no_digit_ahead :: "string \<Rightarrow> bool" where
  "no_digit_ahead rest = (case rest of [] \<Rightarrow> True | c # cs \<Rightarrow> \<not> is_digit c)"



subsection \<open>Example data\<close>

definition example_config :: config where
  "example_config =
     DEFAULT_CONFIG\<lparr>targetPaths := [''/api/search''], allowedDomains := [''example.com''],
                    maxStoredRequests := 2\<rparr>"

text \<open>An empty storage with room, and one whose quota is zero, where every \<^verbatim>\<open>setItem\<close> throws.\<close>

definition empty_storage :: storage where
  "empty_storage = \<lparr>items = [], quota = 5000000\<rparr>"

definition no_storage :: storage where
  "no_storage = \<lparr>items = [], quota = 0\<rparr>"

definition example_request :: request where
  "example_request =
     \<lparr>req_method = ''GET'', req_url = ''https://example.com/api/search?q=1'',
      req_body = JUndefined, req_responseType = [], req_start = 1000,
      resp_status = 200, resp_text = ''{\"ok\":true}'',
      resp_headers = ''content-type: application/json'', resp_time = 1042\<rparr>"

definition example_stamp :: "nat \<Rightarrow> string \<times> string" where
  "example_stamp k = (''1700000000000r'' @ show_nat k, ''2023-11-14T22:13:20.000Z'')"


definition record_A :: jsval where
  "record_A = JObj [(''id'', JStr ''A''), (''type'', JStr ''xhr'')]"

definition record_B :: jsval where
  "record_B = JObj [(''id'', JStr ''B''), (''type'', JStr ''xhr'')]"

definition record_C :: jsval where
  "record_C = JObj [(''id'', JStr ''C''), (''type'', JStr ''xhr'')]"

definition record_D :: jsval where
  "record_D = JObj [(''id'', JStr ''D''), (''type'', JStr ''xhr'')]"

text \<open>Storages that hold a log written earlier.\<close>

definition stored_ABC :: storage where
  "stored_ABC =
     \<lparr>items = [(''api_monitor_requests'',
                ''[{\"id\":\"A\",\"type\":\"xhr\"},{\"id\":\"B\",\"type\":\"xhr\"},{\"id\":\"C\",\"type\":\"xhr\"}]'')],
      quota = 5000000\<rparr>"

definition stored_A :: storage where
  "stored_A = \<lparr>items = [(''api_monitor_requests'', ''[{\"id\":\"A\",\"type\":\"xhr\"}]'')],
               quota = 5000000\<rparr>"


text \<open>The record of \<open>example_request\<close> under \<open>example_config\<close>, with the \<open>k\<close>-th stamp.\<close>

definition example_record :: "nat \<Rightarrow> jsval" where
  "example_record k =
     JObj [(''id'', JStr (''1700000000000r'' @ show_nat k)), (''type'', JStr ''xhr''),
           (''method'', JStr ''GET''),
           (''url'', JStr ''https://example.com/api/search?q=1''),
           (''request'', JNull), (''status'', JNum 200),
           (''response'', JObj [(''ok'', JBool True)]),
           (''responseHeaders'', JStr ''content-type: application/json''),
           (''timestamp'', JStr ''2023-11-14T22:13:20.000Z''),
           (''domain'', JStr ''example.com''), (''path'', JStr ''/api/search''),
           (''duration'', JNum 42), (''initiator'', JStr ''xhr'')]"







text \<open>\<open>monitor_of r\<close> is the monitor that a call of the constructor with the outcome \<open>r\<close>
  returned, if it returned one.\<close>

definition monitor_of :: "(js_error + page) option \<Rightarrow> page option" where
  "monitor_of r = (case r of Some (Inr q) \<Rightarrow> Some q | _ \<Rightarrow> None)"

section \<open>Lemmas\<close>

subsection \<open>String primitives\<close>

lemma startsWith_prefix: "startsWith s p = prefix p s"
  by (auto simp: startsWith_def prefix_def) (metis append_take_drop_id)


lemma basePath_split:
  "\<exists>file. p = substring p 0 (lastIndexOf p (CHR ''/'') + 1) @ file \<and> CHR ''/'' \<notin> set file
     \<and> (substring p 0 (lastIndexOf p (CHR ''/'') + 1) = []
         \<or> last (substring p 0 (lastIndexOf p (CHR ''/'') + 1)) = CHR ''/'')"
proof (cases "CHR ''/'' \<in> set p")
  case False
  then show ?thesis by (simp add: substring_def lastIndexOf_def)
next
  case True
  let ?t = "takeWhile (\<lambda>x. x \<noteq> CHR ''/'') (rev p)"
  let ?d = "dropWhile (\<lambda>x. x \<noteq> CHR ''/'') (rev p)"
  have split: "p = rev ?d @ rev ?t"
    by (metis rev_append rev_rev_ident takeWhile_dropWhile_id)
  have dne: "?d \<noteq> []" using True by (simp add: dropWhile_eq_Nil_conv)
  have "length p = length ?d + length ?t"
    by (metis split length_append length_rev)
  then have len: "length ?t < length p" using dne by simp
  have hd: "hd ?d = CHR ''/''" using dne hd_dropWhile by (metis (mono_tags, lifting))
  have sub: "substring p 0 (lastIndexOf p (CHR ''/'') + 1) = take (length p - length ?t) p"
    using True len by (simp add: substring_def lastIndexOf_def Let_def min_def max_def nat_diff_distrib)
  have "length (rev ?d) = length p - length ?t"
    by (metis split add_diff_cancel_right' length_append length_rev)
  then have tk: "take (length p - length ?t) p = rev ?d"
    by (metis split append_eq_conv_conj)
  have "CHR ''/'' \<notin> set (rev ?t)"
    by (auto dest: set_takeWhileD)
  moreover have "last (rev ?d) = CHR ''/''" using dne hd by (simp add: last_rev)
  ultimately show ?thesis using split sub tk by metis
qed

subsection \<open>Fields the operations leave alone\<close>

lemma log_fields [simp]:
  "config (log p m) = config p"
  "capturedRequests (log p m) = capturedRequests p"
  "isMonitoring (log p m) = isMonitoring p"
  "observers (log p m) = observers p"
  "XMLHttpRequest (log p m) = XMLHttpRequest p"
  "fetch (log p m) = fetch p"
  "createElement (log p m) = createElement p"
  "localStorage (log p m) = localStorage p"
  "listeners (log p m) = listeners p"
  "dispatched (log p m) = dispatched p"
  "calls (log p m) = calls p"
  "downloads (log p m) = downloads p"
  "ui_elements (log p m) = ui_elements p"
  by (simp_all add: log_def)

lemma triggerEvent_fields [simp]:
  "config (triggerEvent p e d) = config p"
  "capturedRequests (triggerEvent p e d) = capturedRequests p"
  "isMonitoring (triggerEvent p e d) = isMonitoring p"
  "observers (triggerEvent p e d) = observers p"
  "XMLHttpRequest (triggerEvent p e d) = XMLHttpRequest p"
  "fetch (triggerEvent p e d) = fetch p"
  "createElement (triggerEvent p e d) = createElement p"
  "localStorage (triggerEvent p e d) = localStorage p"
  "listeners (triggerEvent p e d) = listeners p"
  "downloads (triggerEvent p e d) = downloads p"
  "console (triggerEvent p e d) = console p"
  "dispatched (triggerEvent p e d)
     = dispatched p @ [(''apiMonitor:'' @ e, if d = JUndefined then JNull else d)]"
  by (simp_all add: triggerEvent_def dispatchEvent_def)

lemma saveToStorage_fields [simp]:
  "config (saveToStorage h p) = config p"
  "capturedRequests (saveToStorage h p) = capturedRequests p"
  "isMonitoring (saveToStorage h p) = isMonitoring p"
  "observers (saveToStorage h p) = observers p"
  "XMLHttpRequest (saveToStorage h p) = XMLHttpRequest p"
  "fetch (saveToStorage h p) = fetch p"
  "createElement (saveToStorage h p) = createElement p"
  "listeners (saveToStorage h p) = listeners p"
  "dispatched (saveToStorage h p) = dispatched p"
  "calls (saveToStorage h p) = calls p"
  "downloads (saveToStorage h p) = downloads p"
  by (simp_all add: saveToStorage_def split: option.split sum.split)

text \<open>The outcome of the write inside \<^verbatim>\<open>saveToStorage\<close>.\<close>

lemma saveToStorage_storage:
  "localStorage (saveToStorage h p) =
     (case JSON_stringify h (JArr (capturedRequests p)) 0 of
        None \<Rightarrow> localStorage p
      | Some text \<Rightarrow>
          (case setItem (localStorage p) (storageKey (config p)) text of
             Inl e \<Rightarrow> localStorage p
           | Inr st \<Rightarrow> st))"
  by (simp add: saveToStorage_def split: option.split sum.split)

lemma map_of_put_item: "map_of (put_item k v kvs) k = Some v"
  by (induction kvs) auto

lemma getItem_setItem: "setItem st k v = Inr st' \<Longrightarrow> getItem st' k = Some v"
  by (auto simp: setItem_def getItem_def Let_def map_of_put_item split: if_splits)

lemma saveRequest_fields [simp]:
  "config (saveRequest h p d) = config p"
  "isMonitoring (saveRequest h p d) = isMonitoring p"
  "observers (saveRequest h p d) = observers p"
  "XMLHttpRequest (saveRequest h p d) = XMLHttpRequest p"
  "fetch (saveRequest h p d) = fetch p"
  "createElement (saveRequest h p d) = createElement p"
  "listeners (saveRequest h p d) = listeners p"
  "downloads (saveRequest h p d) = downloads p"
  "dispatched (saveRequest h p d)
     = dispatched p @ [(''apiMonitor:requestCaptured'', if d = JUndefined then JNull else d)]"
  by (simp_all add: saveRequest_def Let_def)

lemma saveRequest_log:
  "capturedRequests (saveRequest h p d) =
     (if int (length (capturedRequests p @ [d])) > maxStoredRequests (config p)
      then slice (capturedRequests p @ [d]) (- maxStoredRequests (config p))
      else capturedRequests p @ [d])"
  by (simp add: saveRequest_def Let_def)

subsection \<open>Bounded log\<close>

lemma saveRequest_push:
  "capturedRequests (saveRequest h p d)
     = push_bounded (maxStoredRequests (config p)) (capturedRequests p) d"
  by (simp add: saveRequest_log push_bounded_def)

lemma push_bounded_newest:
  assumes "0 < cap"
  shows "push_bounded cap rs d = drop (Suc (length rs) - nat cap) (rs @ [d])"
  using assms by (auto simp: push_bounded_def slice_def Let_def max_def nat_diff_distrib' nat_add_distrib)

lemma push_bounded_length:
  assumes "0 < cap"
  shows "int (length (push_bounded cap rs d)) \<le> cap"
  using assms by (auto simp: push_bounded_newest)

lemma drop_newest_step:
  "drop (Suc (length (drop (length xs - c) xs)) - c) (drop (length xs - c) xs @ [d])
     = drop (Suc (length xs) - c) (xs @ [d])"
proof (cases "length xs \<le> c")
  case True
  then show ?thesis by simp
next
  case False
  then have "length (drop (length xs - c) xs) = c" by simp
  moreover have "Suc (length xs) - c = Suc (length xs - c)" using False by simp
  ultimately show ?thesis using False by simp
qed

text \<open>With a capacity of at least one, any non-empty run of inserts leaves the newest
  records, at most as many as the capacity, whatever the log held before.\<close>

lemma inserts_keep_newest:
  assumes "0 < maxStoredRequests (config p)" and "ds \<noteq> []"
  shows "config (foldl (saveRequest h) p ds) = config p
    \<and> capturedRequests (foldl (saveRequest h) p ds)
       = drop (length (capturedRequests p @ ds) - nat (maxStoredRequests (config p)))
              (capturedRequests p @ ds)"
  using assms(2)
proof (induction ds rule: rev_induct)
  case Nil
  then show ?case by simp
next
  case (snoc d ds)
  show ?case
  proof (cases "ds = []")
    case True
    then show ?thesis using assms(1) by (simp add: saveRequest_push push_bounded_newest)
  next
    case False
    let ?q = "foldl (saveRequest h) p ds"
    let ?c = "nat (maxStoredRequests (config p))"
    from snoc.IH [OF False]
    have ih: "config ?q = config p"
      "capturedRequests ?q = drop (length (capturedRequests p @ ds) - ?c) (capturedRequests p @ ds)"
      by blast+
    have "capturedRequests (saveRequest h ?q d)
            = drop (Suc (length (capturedRequests ?q)) - ?c) (capturedRequests ?q @ [d])"
      using assms(1) ih(1) by (simp add: saveRequest_push push_bounded_newest)
    also have "\<dots> = drop (Suc (length (capturedRequests p @ ds)) - ?c) ((capturedRequests p @ ds) @ [d])"
      unfolding ih(2) by (rule drop_newest_step)
    finally show ?thesis using ih(1) by simp
  qed
qed

lemma inserts_bounded:
  assumes "0 < maxStoredRequests (config p)" and "ds \<noteq> []"
  shows "int (length (capturedRequests (foldl (saveRequest h) p ds))) \<le> maxStoredRequests (config p)"
  using inserts_keep_newest [OF assms, of h] assms(1) by auto

text \<open>With a capacity of zero no insert ever evicts: the log grows by every record.\<close>

lemma zero_capacity_never_trims:
  assumes "maxStoredRequests (config p) = 0"
  shows "config (foldl (saveRequest h) p ds) = config p
    \<and> capturedRequests (foldl (saveRequest h) p ds) = capturedRequests p @ ds"
proof (induction ds rule: rev_induct)
  case Nil
  then show ?case by simp
next
  case (snoc d ds)
  then show ?case
    using assms by (simp add: saveRequest_push push_bounded_def slice_def)
qed

text \<open>The scenario of the specification: capacity two, three completions in order.\<close>

lemma three_inserts_capacity_two:
  "capturedRequests (foldl (saveRequest browser) (new_page example_config empty_storage)
                       [record_A, record_B, record_C])
     = [record_B, record_C]"
proof -
  have "0 < maxStoredRequests (config (new_page example_config empty_storage))"
    by (simp add: new_page_def example_config_def)
  from inserts_keep_newest [OF this, of "[record_A, record_B, record_C]" browser]
  show ?thesis by (simp add: new_page_def example_config_def)
qed

subsection \<open>Wrappers at open and send\<close>

lemma same_but_console_refl [simp]: "same_but_console p p"
  unfolding same_but_console_def by (rule exI [of _ "console p"]) simp

lemma same_but_console_update [simp]:
  "same_but_console p (q\<lparr>console := c\<rparr>) = same_but_console p q"
proof
  assume "same_but_console p (q\<lparr>console := c\<rparr>)"
  then obtain c' where "q\<lparr>console := c\<rparr> = p\<lparr>console := c'\<rparr>"
    by (auto simp: same_but_console_def)
  then have "q = p\<lparr>console := console q\<rparr>"
    by (cases p; cases q) simp
  then show "same_but_console p q" unfolding same_but_console_def by blast
next
  assume "same_but_console p q"
  then show "same_but_console p (q\<lparr>console := c\<rparr>)"
    by (auto simp: same_but_console_def)
qed

lemma same_but_console_log [simp]: "same_but_console p (log q m) = same_but_console p q"
  by (simp add: log_def)

lemma same_but_console_trans:
  "same_but_console p q \<Longrightarrow> same_but_console q r \<Longrightarrow> same_but_console p r"
  unfolding same_but_console_def by auto

lemma same_but_console_fields:
  assumes "same_but_console p p'"
  shows "config p' = config p" "capturedRequests p' = capturedRequests p"
    "isMonitoring p' = isMonitoring p" "observers p' = observers p"
    "XMLHttpRequest p' = XMLHttpRequest p" "fetch p' = fetch p"
    "createElement p' = createElement p" "localStorage p' = localStorage p"
    "listeners p' = listeners p" "dispatched p' = dispatched p" "calls p' = calls p"
    "downloads p' = downloads p"
  using assms by (auto simp: same_but_console_def)

lemma captures_simps [simp]:
  "captures [] = 0" "captures (Capture # ls) = Suc (captures ls)"
  "captures (Passthrough # ls) = captures ls"
  by (simp_all add: captures_def)

lemma fold_open_layer:
  "fold (open_layer m u now) ls (p, x) = (p', x') \<Longrightarrow>
     same_but_console p p' \<and> wrappers x' = wrappers x \<and> load_listeners x' = load_listeners x
     \<and> xhr_body x' = xhr_body x
     \<and> (0 < captures ls \<longrightarrow> xhr_url x' = u \<and> xhr_method x' = m \<and> xhr_startTime x' = now)
     \<and> (captures ls = 0 \<longrightarrow> x' = x)"
proof (induction ls arbitrary: p x)
  case Nil
  then show ?case by simp
next
  case (Cons l ls)
  show ?case
  proof (cases l)
    case Capture
    let ?x1 = "x\<lparr>xhr_url := u, xhr_method := m, xhr_startTime := now\<rparr>"
    from Cons.prems Capture
    have "fold (open_layer m u now) ls (log p (XHROpen m u), ?x1) = (p', x')" by simp
    from Cons.IH [OF this]
    have ih: "same_but_console (log p (XHROpen m u)) p'" "wrappers x' = wrappers ?x1"
      "load_listeners x' = load_listeners ?x1" "xhr_body x' = xhr_body ?x1"
      "0 < captures ls \<longrightarrow> xhr_url x' = u \<and> xhr_method x' = m \<and> xhr_startTime x' = now"
      "captures ls = 0 \<longrightarrow> x' = ?x1" by blast+
    have "same_but_console p (log p (XHROpen m u))" by simp
    then have "same_but_console p p'"
      using same_but_console_trans ih(1) by blast
    moreover have "xhr_url x' = u \<and> xhr_method x' = m \<and> xhr_startTime x' = now"
      using ih(5,6) by (cases "captures ls = 0") auto
    ultimately show ?thesis using ih(2,3,4) Capture by simp
  next
    case Passthrough
    from Cons.prems Passthrough
    have "fold (open_layer m u now) ls (log p (GlobalXHR m u), x) = (p', x')" by simp
    from Cons.IH [OF this]
    have ih: "same_but_console (log p (GlobalXHR m u)) p'" "wrappers x' = wrappers x"
      "load_listeners x' = load_listeners x" "xhr_body x' = xhr_body x"
      "0 < captures ls \<longrightarrow> xhr_url x' = u \<and> xhr_method x' = m \<and> xhr_startTime x' = now"
      "captures ls = 0 \<longrightarrow> x' = x" by blast+
    have "same_but_console p (log p (GlobalXHR m u))" by simp
    then have "same_but_console p p'"
      using same_but_console_trans ih(1) by blast
    then show ?thesis using ih(2-6) Passthrough by simp
  qed
qed

lemma send_layer_Capture:
  "send_layer h body Capture (p, x) = (p1, x1) \<Longrightarrow>
     same_but_console p p1
     \<and> x1 = (if send_gate h (config p) (xhr_url x)
             then x\<lparr>xhr_body := body, load_listeners := Suc (load_listeners x)\<rparr> else x)"
  by (auto simp: Let_def split: if_splits)

lemma fold_send_layer:
  "fold (send_layer h body) ls (p, x) = (p', x') \<Longrightarrow>
     same_but_console p p' \<and> wrappers x' = wrappers x \<and> xhr_url x' = xhr_url x
     \<and> xhr_method x' = xhr_method x \<and> xhr_startTime x' = xhr_startTime x
     \<and> load_listeners x' = load_listeners x
          + (if send_gate h (config p) (xhr_url x) then captures ls else 0)
     \<and> (0 < captures ls \<and> send_gate h (config p) (xhr_url x) \<longrightarrow> xhr_body x' = body)
     \<and> (captures ls = 0 \<longrightarrow> x' = x)"
proof (induction ls arbitrary: p x)
  case Nil
  then show ?case by simp
next
  case (Cons l ls)
  show ?case
  proof (cases l)
    case Capture
    obtain p1 x1 where s1: "send_layer h body Capture (p, x) = (p1, x1)" by fastforce
    from send_layer_Capture [OF s1]
    have a: "same_but_console p p1"
      "x1 = (if send_gate h (config p) (xhr_url x)
             then x\<lparr>xhr_body := body, load_listeners := Suc (load_listeners x)\<rparr> else x)"
      by blast+
    have cfg: "config p1 = config p" using same_but_console_fields(1) [OF a(1)] .
    from Cons.prems Capture s1
    have "fold (send_layer h body) ls (p1, x1) = (p', x')" by simp
    from Cons.IH [OF this]
    have ih: "same_but_console p1 p'" "wrappers x' = wrappers x1" "xhr_url x' = xhr_url x1"
      "xhr_method x' = xhr_method x1" "xhr_startTime x' = xhr_startTime x1"
      "load_listeners x' = load_listeners x1
          + (if send_gate h (config p1) (xhr_url x1) then captures ls else 0)"
      "0 < captures ls \<and> send_gate h (config p1) (xhr_url x1) \<longrightarrow> xhr_body x' = body"
      "captures ls = 0 \<longrightarrow> x' = x1"
      by blast+
    have u1: "xhr_url x1 = xhr_url x" using a(2) by simp
    have sbc: "same_but_console p p'" using same_but_console_trans [OF a(1) ih(1)] .
    show ?thesis
    proof (cases "send_gate h (config p) (xhr_url x)")
      case True
      have "xhr_body x' = body"
        using ih(7,8) True cfg u1 a(2) by (cases "captures ls = 0") auto
      then show ?thesis
        using a(2) ih(2-6) True cfg u1 Capture sbc by simp
    next
      case False
      then show ?thesis
        using a(2) ih(2-6) cfg u1 Capture sbc by simp
    qed
  next
    case Passthrough
    from Cons.prems Passthrough
    have "fold (send_layer h body) ls (p, x) = (p', x')" by simp
    from Cons.IH [OF this] show ?thesis using Passthrough by simp
  qed
qed

lemma buildRequestData_page [simp]: "fst (buildRequestData h p ty e rid ts) = log p (Building ty (data_url e))"
  by (simp add: buildRequestData_def Let_def)

lemma buildRequestData_config:
  "config q = config p \<Longrightarrow>
     snd (buildRequestData h q ty e rid ts) = snd (buildRequestData h p ty e rid ts)"
  by (simp add: buildRequestData_def Let_def)

lemma buildRequestData_defined [simp]: "snd (buildRequestData h p ty e rid ts) \<noteq> JUndefined"
  by (simp add: buildRequestData_def Let_def)

lemma fold_open_layer_responseType:
  "fold (open_layer m u now) ls (p, x) = (p', x') \<Longrightarrow> xhr_responseType x' = xhr_responseType x"
proof (induction ls arbitrary: p x)
  case Nil
  then show ?case by simp
next
  case (Cons l ls)
  then show ?case by (cases l) auto
qed

lemma fold_send_layer_responseType:
  "fold (send_layer h body) ls (p, x) = (p', x') \<Longrightarrow> xhr_responseType x' = xhr_responseType x"
proof (induction ls arbitrary: p x)
  case Nil
  then show ?case by simp
next
  case (Cons l ls)
  then show ?case by (cases l) (auto simp: Let_def split: if_splits)
qed

text \<open>A \<^verbatim>\<open>send\<close> that does not pass the gate leaves the object as it is.\<close>

lemma fold_send_layer_unmatched:
  "\<not> send_gate h (config p) (xhr_url x) \<Longrightarrow>
     fold (send_layer h body) ls (p, x) = (p', x') \<Longrightarrow> x' = x"
proof (induction ls arbitrary: p)
  case Nil
  then show ?case by simp
next
  case (Cons l ls)
  show ?case
  proof (cases l)
    case Capture
    let ?q = "log (log p (XHRSend (xhr_method x) (xhr_url x)))
                (XHRCheck (xhr_url x) (hasTargetPath (config p) (xhr_url x))
                   (hasAllowedDomain h (config p) (xhr_url x)))"
    have "fold (send_layer h body) ls (?q, x) = (p', x')"
      using Cons.prems Capture by (simp add: Let_def)
    moreover have "\<not> send_gate h (config ?q) (xhr_url x)" using Cons.prems(1) by simp
    ultimately show ?thesis by (rule Cons.IH [rotated])
  next
    case Passthrough
    then show ?thesis using Cons by simp
  qed
qed

lemma set_responseType_fields [simp]:
  "wrappers (set_responseType x v) = wrappers x" "xhr_url (set_responseType x v) = xhr_url x"
  "xhr_method (set_responseType x v) = xhr_method x"
  "xhr_startTime (set_responseType x v) = xhr_startTime x"
  "xhr_body (set_responseType x v) = xhr_body x"
  "load_listeners (set_responseType x v) = load_listeners x"
  by (simp_all add: set_responseType_def)

lemma load_hook_eq:
  "responseText_readable x \<Longrightarrow>
   load_hook h x sc tx hs now stamp p =
     saveRequest h (log p (Building ''xhr'' (xhr_url x))) (hook_record h p x sc tx hs now stamp)"
  by (simp add: load_hook_def hook_record_def Let_def split_beta)

lemma load_hook_unreadable:
  "\<not> responseText_readable x \<Longrightarrow> load_hook h x sc tx hs now stamp p = log p XHRResponseFailed"
  by (simp add: load_hook_def)

lemma fold_load_hook_unreadable:
  "\<not> responseText_readable x \<Longrightarrow>
     same_but_console p (fold (\<lambda>k. load_hook h x sc tx hs now (stamp k)) ks p)"
proof (induction ks arbitrary: p)
  case Nil
  then show ?case by simp
next
  case (Cons k ks)
  have "same_but_console p (log p XHRResponseFailed)" by simp
  from same_but_console_trans [OF this Cons.IH [OF Cons.prems, of "log p XHRResponseFailed"]]
  show ?case using Cons.prems by (simp add: load_hook_unreadable)
qed

lemma hook_record_config:
  "config q = config p \<Longrightarrow> hook_record h q x sc tx hs now stamp = hook_record h p x sc tx hs now stamp"
  unfolding hook_record_def by (rule buildRequestData_config)

lemma hook_record_defined [simp]: "hook_record h p x sc tx hs now stamp \<noteq> JUndefined"
  by (simp add: hook_record_def)

lemma fold_load_hook:
  assumes "responseText_readable x"
  shows "config (fold (\<lambda>k. load_hook h x sc tx hs now (stamp k)) ks p) = config p
   \<and> dispatched (fold (\<lambda>k. load_hook h x sc tx hs now (stamp k)) ks p)
       = dispatched p @ map (\<lambda>k. (''apiMonitor:requestCaptured'',
                                   hook_record h p x sc tx hs now (stamp k))) ks"
proof (induction ks arbitrary: p)
  case Nil
  then show ?case by simp
next
  case (Cons k ks)
  let ?p1 = "load_hook h x sc tx hs now (stamp k) p"
  have c: "config ?p1 = config p" by (simp add: load_hook_eq [OF assms])
  have d: "dispatched ?p1 = dispatched p @ [(''apiMonitor:requestCaptured'',
                                   hook_record h p x sc tx hs now (stamp k))]"
    by (simp add: load_hook_eq [OF assms])
  have r: "\<And>j. hook_record h ?p1 x sc tx hs now (stamp j) = hook_record h p x sc tx hs now (stamp j)"
    using hook_record_config [OF c] .
  show ?case using Cons.IH [of ?p1] c d r by simp
qed

lemma xhr_load_dispatched:
  "responseText_readable x \<Longrightarrow>
   length (dispatched (xhr_load h p x sc tx hs now stamp)) = length (dispatched p) + load_listeners x"
  by (simp add: xhr_load_def fold_load_hook)

lemma xhr_load_unreadable:
  "\<not> responseText_readable x \<Longrightarrow> same_but_console p (xhr_load h p x sc tx hs now stamp)"
  unfolding xhr_load_def by (rule fold_load_hook_unreadable)


text \<open>\<^verbatim>\<open>open\<close>, an assignment to \<^verbatim>\<open>responseType\<close> and \<^verbatim>\<open>send\<close> on an object \<open>x\<close>, whatever was done
  with it before.\<close>

lemma xhr_request_hooks:
  assumes "xhr_open p x m u t = (p1, x1)"
    and "xhr_send h p1 (set_responseType x1 rt) body = (p2, x2)"
  shows "same_but_console p p2"
    and "load_listeners x2
           = load_listeners x + (if send_gate h (config p) u then captures (wrappers x) else 0)"
    and "wrappers x2 = wrappers x"
    and "xhr_responseType x2 = xhr_responseType (set_responseType x rt)"
    and "0 < captures (wrappers x) \<Longrightarrow>
           xhr_url x2 = u \<and> xhr_method x2 = m \<and> xhr_startTime x2 = t"
    and "0 < captures (wrappers x) \<Longrightarrow> send_gate h (config p) u \<Longrightarrow> xhr_body x2 = body"
    and "\<not> send_gate h (config p) u \<Longrightarrow> xhr_body x2 = xhr_body x"
proof -
  from assms(1) have f1: "fold (open_layer m u t) (wrappers x) (p, x) = (p1, x1)"
    by (simp add: xhr_open_def)
  from fold_open_layer [OF f1]
  have o: "same_but_console p p1" "wrappers x1 = wrappers x"
    "load_listeners x1 = load_listeners x" "xhr_body x1 = xhr_body x"
    "0 < captures (wrappers x) \<longrightarrow> xhr_url x1 = u \<and> xhr_method x1 = m \<and> xhr_startTime x1 = t"
    "captures (wrappers x) = 0 \<longrightarrow> x1 = x"
    by blast+
  have rt1: "xhr_responseType x1 = xhr_responseType x"
    using fold_open_layer_responseType [OF f1] .
  let ?y = "set_responseType x1 rt"
  from assms(2) o(2) have f2: "fold (send_layer h body) (wrappers x) (p1, ?y) = (p2, x2)"
    by (simp add: xhr_send_def)
  from fold_send_layer [OF f2]
  have s: "same_but_console p1 p2" "wrappers x2 = wrappers ?y" "xhr_url x2 = xhr_url ?y"
    "xhr_method x2 = xhr_method ?y" "xhr_startTime x2 = xhr_startTime ?y"
    "load_listeners x2 = load_listeners ?y
        + (if send_gate h (config p1) (xhr_url ?y) then captures (wrappers x) else 0)"
    "0 < captures (wrappers x) \<and> send_gate h (config p1) (xhr_url ?y) \<longrightarrow> xhr_body x2 = body"
    "captures (wrappers x) = 0 \<longrightarrow> x2 = ?y"
    by blast+
  have c1: "config p1 = config p" using same_but_console_fields(1) [OF o(1)] .
  show "same_but_console p p2" using same_but_console_trans [OF o(1) s(1)] .
  show "load_listeners x2
          = load_listeners x + (if send_gate h (config p) u then captures (wrappers x) else 0)"
    using s(6) o(3,5) c1 by (cases "captures (wrappers x) = 0") auto
  show "wrappers x2 = wrappers x" using s(2) o(2) by simp
  show "xhr_responseType x2 = xhr_responseType (set_responseType x rt)"
    using fold_send_layer_responseType [OF f2] rt1 by (simp add: set_responseType_def)
  show "xhr_url x2 = u \<and> xhr_method x2 = m \<and> xhr_startTime x2 = t"
    if "0 < captures (wrappers x)"
    using that o(5) s(3-5) by simp
  show "xhr_body x2 = body" if "0 < captures (wrappers x)" "send_gate h (config p) u"
    using that o(5) s(7) c1 by simp
  show "xhr_body x2 = xhr_body x" if "\<not> send_gate h (config p) u"
  proof (cases "captures (wrappers x) = 0")
    case True
    then show ?thesis using s(8) o(4) by simp
  next
    case False
    then have "xhr_url ?y = u" using o(5) by simp
    then have "\<not> send_gate h (config p1) (xhr_url ?y)" using that c1 by simp
    from fold_send_layer_unmatched [OF this f2] show ?thesis using o(4) by simp
  qed
qed

subsection \<open>Lifecycle\<close>

lemma start_fields [simp]:
  "config (start h p) = config p" "capturedRequests (start h p) = capturedRequests p"
  "ui_elements (start h p) = ui_elements p"
  "localStorage (start h p) = localStorage p" "dispatched (start h p) = dispatched p"
  "listeners (start h p) = listeners p" "calls (start h p) = calls p"
  "downloads (start h p) = downloads p" "isMonitoring (start h p) = True"
  by (simp_all add: start_def interceptXHR_def interceptFetch_def
        setupPerformanceObserver_def interceptJSONP_def interceptScriptTags_def
        interceptAllNetworkRequests_def Let_def)

lemma start_wrappers:
  "XMLHttpRequest (start h p)
     = (if isMonitoring p then XMLHttpRequest p else Passthrough # Capture # XMLHttpRequest p)"
  "fetch (start h p) = (if isMonitoring p then fetch p else Passthrough # Capture # fetch p)"
  by (simp_all add: start_def interceptXHR_def interceptFetch_def
        setupPerformanceObserver_def interceptJSONP_def interceptScriptTags_def
        interceptAllNetworkRequests_def Let_def)

lemma stop_fields [simp]:
  "config (stop p) = config p" "capturedRequests (stop p) = capturedRequests p"
  "localStorage (stop p) = localStorage p" "dispatched (stop p) = dispatched p"
  "listeners (stop p) = listeners p" "calls (stop p) = calls p"
  "downloads (stop p) = downloads p" "isMonitoring (stop p) = False"
  "XMLHttpRequest (stop p) = XMLHttpRequest p" "fetch (stop p) = fetch p"
  "createElement (stop p) = createElement p"
  by (simp_all add: stop_def)

text \<open>A second \<^verbatim>\<open>start\<close> in succession installs nothing: it only logs.\<close>

lemma start_twice: "start h (start h p) = log (start h p) AlreadyRunning"
  by (simp add: start_def [of h "start h p"])

lemma start_twice_same: "same_but_console (start h p) (start h (start h p))"
  by (simp add: start_twice)

text \<open>One \<^verbatim>\<open>start\<close> on the native primitives puts one capturing wrapper under the logging
  one; a \<^verbatim>\<open>stop\<close> and a second \<^verbatim>\<open>start\<close> put a second pair around the first.\<close>

lemma start_once_captures:
  "\<not> isMonitoring p \<Longrightarrow> captures (XMLHttpRequest (start h p)) = Suc (captures (XMLHttpRequest p))"
  by (simp add: start_wrappers)

lemma restart_captures:
  "\<not> isMonitoring p \<Longrightarrow>
     captures (XMLHttpRequest (start h (stop (start h p)))) = Suc (Suc (captures (XMLHttpRequest p)))"
  by (simp add: start_wrappers)

subsection \<open>A matched exchange\<close>

lemma hook_record_xhr:
  "xhr_url x = xhr_url y \<Longrightarrow> xhr_method x = xhr_method y \<Longrightarrow>
   xhr_startTime x = xhr_startTime y \<Longrightarrow> xhr_body x = xhr_body y \<Longrightarrow>
   hook_record h p x sc tx hs now stamp = hook_record h p y sc tx hs now stamp"
  by (simp add: hook_record_def)

lemma fold_load_hook_log:
  assumes "responseText_readable x"
  shows "capturedRequests (fold (\<lambda>k. load_hook h x sc tx hs now (stamp k)) ks p)
     = foldl (push_bounded (maxStoredRequests (config p))) (capturedRequests p)
             (map (\<lambda>k. hook_record h p x sc tx hs now (stamp k)) ks)"
proof (induction ks arbitrary: p)
  case Nil
  then show ?case by simp
next
  case (Cons k ks)
  let ?p1 = "load_hook h x sc tx hs now (stamp k) p"
  have c: "config ?p1 = config p" by (simp add: load_hook_eq [OF assms])
  have l: "capturedRequests ?p1
             = push_bounded (maxStoredRequests (config p)) (capturedRequests p)
                 (hook_record h p x sc tx hs now (stamp k))"
    by (simp add: load_hook_eq [OF assms] saveRequest_push)
  have r: "\<And>j. hook_record h ?p1 x sc tx hs now (stamp j) = hook_record h p x sc tx hs now (stamp j)"
    using hook_record_config [OF c] .
  show ?case using Cons.IH [of ?p1] c l r by simp
qed

text \<open>
  A request with the object \<open>x\<close>. Every hook on the object runs at the \<^verbatim>\<open>load\<close> event: those
  that this \<^verbatim>\<open>send\<close> attached and those that earlier requests with the same object left. Each
  commits a record of the object as it is now, when \<^verbatim>\<open>responseText\<close> can be read, and only
  logs otherwise.
\<close>

lemma xhr_request_records:
  assumes "xhr_request h p x r stamp = (p', x')"
  shows "load_listeners x'
           = load_listeners x
             + (if send_gate h (config p) (req_url r) then captures (wrappers x) else 0)"
    and "wrappers x' = wrappers x"
    and "xhr_responseType x' = xhr_responseType (set_responseType x (req_responseType r))"
    and "responseText_readable x' \<Longrightarrow>
           dispatched p'
             = dispatched p @ map (\<lambda>k. (''apiMonitor:requestCaptured'',
                   hook_record h p x' (resp_status r) (resp_text r) (resp_headers r)
                     (resp_time r) (stamp k))) [0 ..< load_listeners x']"
    and "responseText_readable x' \<Longrightarrow>
           capturedRequests p'
             = foldl (push_bounded (maxStoredRequests (config p))) (capturedRequests p)
                 (map (\<lambda>k. hook_record h p x' (resp_status r) (resp_text r) (resp_headers r)
                          (resp_time r) (stamp k)) [0 ..< load_listeners x'])"
    and "\<not> responseText_readable x' \<or> load_listeners x' = 0 \<Longrightarrow> same_but_console p p'"
    and "0 < captures (wrappers x) \<Longrightarrow>
           xhr_url x' = req_url r \<and> xhr_method x' = req_method r \<and> xhr_startTime x' = req_start r"
    and "0 < captures (wrappers x) \<Longrightarrow> send_gate h (config p) (req_url r) \<Longrightarrow>
           xhr_body x' = req_body r"
    and "\<not> send_gate h (config p) (req_url r) \<Longrightarrow> xhr_body x' = xhr_body x"
    and "config p' = config p"
proof -
  obtain p1 x1 where a: "xhr_open p x (req_method r) (req_url r) (req_start r) = (p1, x1)"
    by fastforce
  obtain p2 x2 where b: "xhr_send h p1 (set_responseType x1 (req_responseType r)) (req_body r)
                           = (p2, x2)"
    by fastforce
  have e: "p' = xhr_load h p2 x2 (resp_status r) (resp_text r) (resp_headers r) (resp_time r) stamp"
    "x' = x2"
    using assms by (auto simp: xhr_request_def a b)
  note hk = xhr_request_hooks [OF a b]
  have cfg2: "config p2 = config p" and log2: "capturedRequests p2 = capturedRequests p"
    and dis2: "dispatched p2 = dispatched p"
    using same_but_console_fields [OF hk(1)] by simp_all
  have hr: "\<And>st. hook_record h p2 x2 (resp_status r) (resp_text r) (resp_headers r) (resp_time r) st
                 = hook_record h p x2 (resp_status r) (resp_text r) (resp_headers r) (resp_time r) st"
    using hook_record_config [OF cfg2] .
  show "load_listeners x'
           = load_listeners x
             + (if send_gate h (config p) (req_url r) then captures (wrappers x) else 0)"
    using hk(2) e(2) by simp
  show "wrappers x' = wrappers x" using hk(3) e(2) by simp
  show "xhr_responseType x' = xhr_responseType (set_responseType x (req_responseType r))"
    using hk(4) e(2) by simp
  show "dispatched p'
          = dispatched p @ map (\<lambda>k. (''apiMonitor:requestCaptured'',
                hook_record h p x' (resp_status r) (resp_text r) (resp_headers r)
                  (resp_time r) (stamp k))) [0 ..< load_listeners x']"
    if "responseText_readable x'"
    using that unfolding e by (simp add: xhr_load_def fold_load_hook hr dis2)
  show "capturedRequests p'
          = foldl (push_bounded (maxStoredRequests (config p))) (capturedRequests p)
              (map (\<lambda>k. hook_record h p x' (resp_status r) (resp_text r) (resp_headers r)
                       (resp_time r) (stamp k)) [0 ..< load_listeners x'])"
    if "responseText_readable x'"
    using that unfolding e by (simp add: xhr_load_def fold_load_hook_log hr cfg2 log2)
  show "same_but_console p p'" if "\<not> responseText_readable x' \<or> load_listeners x' = 0"
  proof (cases "responseText_readable x'")
    case False
    then have "same_but_console p2 p'" unfolding e by (rule xhr_load_unreadable)
    from same_but_console_trans [OF hk(1) this] show ?thesis .
  next
    case True
    then have "load_listeners x2 = 0" using that e(2) by simp
    then have "p' = p2" by (simp add: e xhr_load_def)
    then show ?thesis using hk(1) by simp
  qed
  show "xhr_url x' = req_url r \<and> xhr_method x' = req_method r \<and> xhr_startTime x' = req_start r"
    if "0 < captures (wrappers x)"
    using hk(5) [OF that] e(2) by simp
  show "xhr_body x' = req_body r"
    if "0 < captures (wrappers x)" "send_gate h (config p) (req_url r)"
    using hk(6) [OF that] e(2) by simp
  show "xhr_body x' = xhr_body x" if "\<not> send_gate h (config p) (req_url r)"
    using hk(7) [OF that] e(2) by simp
  show "config p' = config p"
  proof (cases "responseText_readable x2")
    case True
    then show ?thesis unfolding e by (simp add: xhr_load_def fold_load_hook cfg2)
  next
    case False
    then have "same_but_console p2 p'" unfolding e by (rule xhr_load_unreadable)
    from same_but_console_fields(1) [OF this] show ?thesis using cfg2 by simp
  qed
qed

text \<open>On a new object \<^verbatim>\<open>responseText\<close> can be read unless the page asks for another type.\<close>

lemma new_object_readable:
  "xhr_responseType x = [] \<Longrightarrow>
     responseText_readable (set_responseType x (req_responseType r)) = text_response r"
  by (auto simp: responseText_readable_def set_responseType_def text_response_def)

lemma xhr_exchange_request:
  "xhr_request h p (new_XMLHttpRequest p) r stamp
     = (xhr_exchange h p r stamp, snd (xhr_request h p (new_XMLHttpRequest p) r stamp))"
  by (simp add: xhr_exchange_def)

lemma xhr_exchange_records:
  assumes "text_response r"
  shows "length (dispatched (xhr_exchange h p r stamp))
     = length (dispatched p)
       + (if send_gate h (config p) (req_url r) then captures (XMLHttpRequest p) else 0)"
proof -
  let ?x = "snd (xhr_request h p (new_XMLHttpRequest p) r stamp)"
  note rq = xhr_request_records [OF xhr_exchange_request [of h p r stamp]]
  have rd: "responseText_readable ?x"
    using rq(3) assms new_object_readable [of "new_XMLHttpRequest p" r]
    by (simp add: responseText_readable_def new_XMLHttpRequest_def)
  show ?thesis using rq(4) [OF rd] rq(1) by (simp add: new_XMLHttpRequest_def)
qed


lemma xhr_exchange_matched:
  assumes "send_gate h (config p) (req_url r)" and "text_response r"
  shows "dispatched (xhr_exchange h p r stamp)
           = dispatched p @ map (\<lambda>k. (''apiMonitor:requestCaptured'', request_record h p r (stamp k)))
                               [0 ..< captures (XMLHttpRequest p)]"
    and "capturedRequests (xhr_exchange h p r stamp)
           = foldl (push_bounded (maxStoredRequests (config p))) (capturedRequests p)
                   (map (\<lambda>k. request_record h p r (stamp k)) [0 ..< captures (XMLHttpRequest p)])"
proof -
  let ?x = "snd (xhr_request h p (new_XMLHttpRequest p) r stamp)"
  note rq = xhr_request_records [OF xhr_exchange_request [of h p r stamp]]
  have w: "wrappers (new_XMLHttpRequest p) = XMLHttpRequest p"
    "load_listeners (new_XMLHttpRequest p) = 0"
    by (simp_all add: new_XMLHttpRequest_def)
  have rd: "responseText_readable ?x"
    using rq(3) assms(2) new_object_readable [of "new_XMLHttpRequest p" r]
    by (simp add: responseText_readable_def new_XMLHttpRequest_def)
  have n: "load_listeners ?x = captures (XMLHttpRequest p)"
    using rq(1) assms(1) w by simp
  have rec: "hook_record h p ?x (resp_status r) (resp_text r) (resp_headers r) (resp_time r) st
               = request_record h p r st"
    if "0 < captures (XMLHttpRequest p)" for st
  proof -
    have "xhr_url ?x = req_url r" "xhr_method ?x = req_method r" "xhr_startTime ?x = req_start r"
      "xhr_body ?x = req_body r"
      using that rq(7,8) assms(1) w by auto
    then show ?thesis
      unfolding request_record_def by (intro hook_record_xhr) simp_all
  qed
  have m: "map (\<lambda>k. hook_record h p ?x (resp_status r) (resp_text r) (resp_headers r)
                          (resp_time r) (stamp k)) [0 ..< captures (XMLHttpRequest p)]
           = map (\<lambda>k. request_record h p r (stamp k)) [0 ..< captures (XMLHttpRequest p)]"
    using rec by (cases "captures (XMLHttpRequest p)") simp_all
  have "dispatched (xhr_exchange h p r stamp)
          = dispatched p @ map (Pair ''apiMonitor:requestCaptured'')
              (map (\<lambda>k. hook_record h p ?x (resp_status r) (resp_text r) (resp_headers r)
                          (resp_time r) (stamp k)) [0 ..< load_listeners ?x])"
    using rq(4) [OF rd] by (simp add: comp_def)
  also have "\<dots> = dispatched p @ map (Pair ''apiMonitor:requestCaptured'')
              (map (\<lambda>k. request_record h p r (stamp k)) [0 ..< captures (XMLHttpRequest p)])"
    unfolding n m ..
  finally show "dispatched (xhr_exchange h p r stamp)
           = dispatched p @ map (\<lambda>k. (''apiMonitor:requestCaptured'', request_record h p r (stamp k)))
                               [0 ..< captures (XMLHttpRequest p)]"
    by (simp add: comp_def)
  have "capturedRequests (xhr_exchange h p r stamp)
          = foldl (push_bounded (maxStoredRequests (config p))) (capturedRequests p)
              (map (\<lambda>k. hook_record h p ?x (resp_status r) (resp_text r) (resp_headers r)
                          (resp_time r) (stamp k)) [0 ..< load_listeners ?x])"
    using rq(5) [OF rd] .
  also have "\<dots> = foldl (push_bounded (maxStoredRequests (config p))) (capturedRequests p)
                   (map (\<lambda>k. request_record h p r (stamp k)) [0 ..< captures (XMLHttpRequest p)])"
    unfolding n m ..
  finally show "capturedRequests (xhr_exchange h p r stamp)
           = foldl (push_bounded (maxStoredRequests (config p))) (capturedRequests p)
                   (map (\<lambda>k. request_record h p r (stamp k)) [0 ..< captures (XMLHttpRequest p)])" .
qed

lemma request_record_config:
  "config q = config p \<Longrightarrow> request_record h q r st = request_record h p r st"
  unfolding request_record_def by (rule hook_record_config)

lemma example_record_built:
  "config p = example_config \<Longrightarrow>
     request_record browser p example_request (example_stamp k) = example_record k"
proof -
  assume c: "config p = example_config"
  have pj: "JSON_parse browser ''{\"ok\":true}'' = Some (JObj [(''ok'', JBool True)])"
    by code_simp
  have pu: "parseURL browser ''https://example.com/api/search?q=1''
              = \<lparr>domain = ''example.com'', path = ''/api/search''\<rparr>"
    by code_simp
  have "request_record browser (new_page example_config empty_storage) example_request
          (''1700000000000r'' @ show_nat k, ''2023-11-14T22:13:20.000Z'')
        = example_record k"
    using pj pu
    by (simp add: request_record_def hook_record_def buildRequestData_def example_record_def
          new_page_def example_config_def DEFAULT_CONFIG_def example_request_def Let_def
          parseData_def)
  then show ?thesis
    using request_record_config [of p "new_page example_config empty_storage"] c
    by (simp add: example_stamp_def new_page_def)
qed

lemma example_gate: "send_gate browser example_config ''https://example.com/api/search?q=1''"
  by code_simp

text \<open>After one \<^verbatim>\<open>start\<close> on native primitives, and after a second \<^verbatim>\<open>start\<close> in succession,
  a matched exchange commits one record.\<close>

lemma started_once_one_record:
  assumes "\<not> isMonitoring p" and "captures (XMLHttpRequest p) = 0"
    and "send_gate h (config p) (req_url r)" and "text_response r"
  shows "dispatched (xhr_exchange h (start h p) r stamp)
           = dispatched p @ [(''apiMonitor:requestCaptured'', request_record h p r (stamp 0))]"
proof -
  have "captures (XMLHttpRequest (start h p)) = 1"
    using assms(1,2) by (simp add: start_wrappers)
  moreover have "send_gate h (config (start h p)) (req_url r)" using assms(3) by simp
  ultimately show ?thesis
    using xhr_exchange_matched(1) [of h "start h p" r stamp] assms(4)
      request_record_config [of "start h p" p h r] by simp
qed

lemma started_twice_one_record:
  assumes "\<not> isMonitoring p" and "captures (XMLHttpRequest p) = 0"
    and "send_gate h (config p) (req_url r)" and "text_response r"
  shows "dispatched (xhr_exchange h (start h (start h p)) r stamp)
           = dispatched p @ [(''apiMonitor:requestCaptured'', request_record h p r (stamp 0))]"
proof -
  have "captures (XMLHttpRequest (start h (start h p))) = 1"
    using assms(1,2) by (simp add: start_wrappers)
  moreover have "send_gate h (config (start h (start h p))) (req_url r)" using assms(3) by simp
  ultimately show ?thesis
    using xhr_exchange_matched(1) [of h "start h (start h p)" r stamp] assms(4)
      request_record_config [of "start h (start h p)" p h r] by simp
qed

text \<open>After \<^verbatim>\<open>start\<close>, \<^verbatim>\<open>stop\<close> and \<^verbatim>\<open>start\<close> again, a matched exchange commits two records, for
  every host, configuration and request.\<close>

lemma restarted_two_records:
  assumes "\<not> isMonitoring p" and "captures (XMLHttpRequest p) = 0"
    and "send_gate h (config p) (req_url r)" and "text_response r"
  shows "dispatched (xhr_exchange h (start h (stop (start h p))) r stamp)
           = dispatched p @ [(''apiMonitor:requestCaptured'', request_record h p r (stamp 0)),
                             (''apiMonitor:requestCaptured'', request_record h p r (stamp 1))]"
proof -
  let ?q = "start h (stop (start h p))"
  have n: "captures (XMLHttpRequest ?q) = 2"
    using assms(1,2) by (simp add: start_wrappers)
  have u: "[0 ..< 2] = [0, Suc 0]" by (simp add: upt_rec)
  have g: "send_gate h (config ?q) (req_url r)" using assms(3) by simp
  have c: "request_record h ?q r (stamp 0) = request_record h p r (stamp 0)"
    "request_record h ?q r (stamp (Suc 0)) = request_record h p r (stamp (Suc 0))"
    by (rule request_record_config, simp)+
  show ?thesis
    using xhr_exchange_matched(1) [OF g assms(4), of stamp] n u c by simp
qed

subsection \<open>Persistence\<close>

text \<open>\<^verbatim>\<open>createUI\<close> throws when it gets as far as the loop of \<^verbatim>\<open>renderRequestList\<close> and an element
  of the log does not render; otherwise it changes the console and the bit of the panel.\<close>

lemma createUI_cases:
  "createUI h p =
     (if document_body h \<and> \<not> ui_elements p \<and> \<not> list_all renders (capturedRequests p)
      then Inl TypeError
      else Inr (if \<not> document_body h then log p BodyMissing
                else if ui_elements p then log p UIExists
                else p\<lparr>ui_elements := True\<rparr>))"
  by (auto simp: createUI_def renderRequestList_def)

lemma init_raises:
  "(init h p = Inl e) =
     (e = TypeError \<and> enableUI (config p) \<and> document_body h \<and> \<not> ui_elements p
      \<and> \<not> list_all renders (capturedRequests p))"
  by (auto simp: init_def Let_def createUI_cases)

lemma init_returns:
  assumes "init h p = Inr q"
  shows "config q = config p" "capturedRequests q = capturedRequests p"
    "localStorage q = localStorage p" "dispatched q = dispatched p"
    "listeners q = listeners p" "downloads q = downloads p"
  using assms
  by (auto simp: init_def Let_def createUI_cases log_def split: if_splits)

text \<open>A stored text that parses to an array is restored as it is, whatever its length,
  unless the panel is to be drawn and an element does not render: then the constructor
  throws.\<close>

lemma APIMonitor_loads:
  assumes "getItem st (storageKey cfg) = Some stored" and "stored \<noteq> []"
    and "JSON_parse h stored = Some (JArr rs)"
  shows "APIMonitor h cfg st = Some (init h ((new_page cfg st)\<lparr>capturedRequests := rs\<rparr>))"
  using assms by (simp add: APIMonitor_def loadFromStorage_def new_page_def)

lemma APIMonitor_restores:
  assumes "getItem st (storageKey cfg) = Some stored" and "stored \<noteq> []"
    and "JSON_parse h stored = Some (JArr rs)"
    and "enableUI cfg \<and> document_body h \<longrightarrow> list_all renders rs"
  shows "\<exists>q. APIMonitor h cfg st = Some (Inr q) \<and> capturedRequests q = rs \<and> config q = cfg
             \<and> localStorage q = st"
proof -
  let ?p = "(new_page cfg st)\<lparr>capturedRequests := rs\<rparr>"
  have "\<forall>e. init h ?p \<noteq> Inl e"
    using assms(4) by (simp add: init_raises new_page_def)
  then obtain q where q: "init h ?p = Inr q" by (cases "init h ?p") auto
  from init_returns [OF q] have "capturedRequests q = rs" "config q = cfg" "localStorage q = st"
    by (simp_all add: new_page_def)
  then show ?thesis using APIMonitor_loads [OF assms(1-3)] q by simp
qed


lemma saveToStorage_accepted:
  assumes "write_accepted h (localStorage p) (storageKey (config p)) (capturedRequests p)"
  shows "mirrored h (saveToStorage h p)"
  using assms
  by (auto simp: write_accepted_def mirrored_def saveToStorage_def getItem_setItem
           split: option.splits sum.splits)

lemma saveToStorage_refused:
  assumes "\<not> write_accepted h (localStorage p) (storageKey (config p)) (capturedRequests p)"
  shows "localStorage (saveToStorage h p) = localStorage p"
  using assms
  by (auto simp: write_accepted_def saveToStorage_def split: option.splits sum.splits)

lemma mirrored_cong:
  "capturedRequests q = capturedRequests p \<Longrightarrow> localStorage q = localStorage p \<Longrightarrow>
   config q = config p \<Longrightarrow> mirrored h q = mirrored h p"
  by (simp add: mirrored_def split: option.split)

lemma saveRequest_storage:
  "localStorage (saveRequest h p d)
     = localStorage (saveToStorage h
         (p\<lparr>capturedRequests := push_bounded (maxStoredRequests (config p)) (capturedRequests p) d\<rparr>))"
  by (simp add: saveRequest_def Let_def push_bounded_def saveToStorage_storage
           split: option.split sum.split)

lemma clear_fields [simp]:
  "config (clear h p) = config p" "capturedRequests (clear h p) = []"
  "listeners (clear h p) = listeners p" "downloads (clear h p) = downloads p"
  "console (clear h p) = console (saveToStorage h (p\<lparr>capturedRequests := []\<rparr>))"
  "isMonitoring (clear h p) = isMonitoring p" "observers (clear h p) = observers p"
  "XMLHttpRequest (clear h p) = XMLHttpRequest p" "fetch (clear h p) = fetch p"
  "dispatched (clear h p) = dispatched p @ [(''apiMonitor:dataCleared'', JNull)]"
  "localStorage (clear h p) = localStorage (saveToStorage h (p\<lparr>capturedRequests := []\<rparr>))"
  by (simp_all add: clear_def Let_def)


lemma clear_mirrors:
  "(write_accepted h (localStorage p) (storageKey (config p)) []
      \<longrightarrow> mirrored h (clear h p))
   \<and> (\<not> write_accepted h (localStorage p) (storageKey (config p)) []
      \<longrightarrow> localStorage (clear h p) = localStorage p)"
proof -
  let ?p1 = "p\<lparr>capturedRequests := []\<rparr>"
  have m: "mirrored h (clear h p) = mirrored h (saveToStorage h ?p1)"
    by (rule mirrored_cong) simp_all
  show ?thesis
    using saveToStorage_accepted [of h ?p1] saveToStorage_refused [of h ?p1]
    by (simp add: m)
qed

lemma clear_calls:
  "calls (clear h p)
     = calls p @ map (invoke ''apiMonitor:dataCleared'' JNull \<circ> snd)
                     (filter (\<lambda>l. fst l = ''apiMonitor:dataCleared'') (listeners p))"
  by (simp add: clear_def Let_def triggerEvent_def dispatchEvent_def)

lemma download_fields [simp]:
  "config (download h p f i) = config p" "capturedRequests (download h p f i) = capturedRequests p"
  "localStorage (download h p f i) = localStorage p" "dispatched (download h p f i) = dispatched p"
  "calls (download h p f i) = calls p" "listeners (download h p f i) = listeners p"
  "isMonitoring (download h p f i) = isMonitoring p"
  "XMLHttpRequest (download h p f i) = XMLHttpRequest p"
  by (simp_all add: download_def split: option.split)

subsection \<open>The JSON of the example host\<close>




























lemma no_digit_ahead_simps [simp]:
  "no_digit_ahead []" "no_digit_ahead (CHR '','' # s)" "no_digit_ahead (CHR '']'' # s)"
  "no_digit_ahead (CHR ''}'' # s)"
  by (simp_all add: no_digit_ahead_def is_digit_def)


lemma not_ws [simp]:
  "\<not> is_ws (CHR '']'')" "\<not> is_ws (CHR ''}'')" "\<not> is_ws (CHR '','')" "\<not> is_ws (CHR '':'')"
  "\<not> is_ws (CHR 0x22)" "\<not> is_ws (CHR ''['')" "\<not> is_ws (CHR ''{'')"
  by (simp_all add: is_ws_def)

lemma str_elements_Nil [simp]: "(str_elements n d vs = []) = (vs = [])"
  by (cases vs) simp_all


lemma str_members_clean:
  "v \<noteq> JUndefined \<Longrightarrow>
     str_members n d ((k, v) # kvs)
       = (quote k @ (if n = 0 then '':'' else '': '') @ str_value n d v) # str_members n d kvs"
  by simp


















subsection \<open>Logs of records\<close>








lemma json_clean_members_append [simp]:
  "json_clean_members (xs @ ys) = (json_clean_members xs \<and> json_clean_members ys)"
  by (induction xs) auto













subsection \<open>The examples\<close>




lemma example_request_fields:
  "req_url example_request = ''https://example.com/api/search?q=1''"
  "text_response example_request" "req_body example_request = JUndefined"
  "req_method example_request = ''GET''" "req_start example_request = 1000"
  "resp_status example_request = 200" "resp_text example_request = ''{\"ok\":true}''"
  "resp_headers example_request = ''content-type: application/json''"
  "resp_time example_request = 1042" "req_responseType example_request = []"
  by (simp_all add: example_request_def text_response_def)



















text \<open>Load never trims; the next insert trims when the capacity is at least one.\<close>

lemma load_never_trims:
  assumes "getItem st (storageKey cfg) = Some stored" and "stored \<noteq> []"
    and "JSON_parse h stored = Some (JArr rs)"
    and "enableUI cfg \<and> document_body h \<longrightarrow> list_all renders rs"
  shows "\<exists>q. APIMonitor h cfg st = Some (Inr q) \<and> getRequests q = rs
            \<and> (0 < maxStoredRequests cfg
                 \<longrightarrow> getRequests (saveRequest h q d)
                       = drop (Suc (length rs) - nat (maxStoredRequests cfg)) (rs @ [d])
                     \<and> int (length (getRequests (saveRequest h q d))) \<le> maxStoredRequests cfg)"
proof -
  from APIMonitor_restores [OF assms]
  obtain q where q: "APIMonitor h cfg st = Some (Inr q)" "capturedRequests q = rs" "config q = cfg"
    by blast
  have "getRequests (saveRequest h q d)
          = drop (Suc (length rs) - nat (maxStoredRequests cfg)) (rs @ [d])
        \<and> int (length (getRequests (saveRequest h q d))) \<le> maxStoredRequests cfg"
    if "0 < maxStoredRequests cfg"
    using that q(2,3) push_bounded_newest [OF that, of rs d] push_bounded_length [OF that, of rs d]
    by (simp add: getRequests_def saveRequest_push)
  then show ?thesis using q(1,2) by (auto simp: getRequests_def)
qed

lemma monitor_of_simps [simp]:
  "monitor_of (Some (Inr q)) = Some q" "monitor_of (Some (Inl e)) = None" "monitor_of None = None"
  by (simp_all add: monitor_of_def)

section \<open>The claims\<close>

subsection \<open>C1: the gate\<close>




subsection \<open>C2: the bound of the log\<close>

text \<open>
  Claim C2 on a monitor configured with \<^verbatim>\<open>maxStoredRequests: 0\<close>. The log is to hold at most
  zero records after every insert. \<^verbatim>\<open>slice(-0)\<close> is \<^verbatim>\<open>slice(0)\<close>, the whole array: the three
  inserts leave three records, none evicted.
\<close>

theorem saveRequest_zero_capacity:
  "capturedRequests
     (foldl (saveRequest browser)
            (new_page (example_config\<lparr>maxStoredRequests := 0\<rparr>) empty_storage)
            [record_A, record_B, record_C])
     = [record_A, record_B, record_C]"
  by (simp add: saveRequest_push push_bounded_def slice_def new_page_def)

subsection \<open>C3: one record for one request\<close>

text \<open>
  Claim C3 on a monitor that is started, stopped and started again. \<^verbatim>\<open>stop\<close> clears the flag
  that guards \<^verbatim>\<open>start\<close> and leaves the wrappers in place; the second \<^verbatim>\<open>start\<close> wraps the wrapped
  \<^verbatim>\<open>XMLHttpRequest\<close> once more. One matched request then runs two completion hooks: two
  records of the same exchange are committed and two events dispatched, where the claim
  has exactly one.
\<close>

theorem restart_doubles_records:
  "captures (XMLHttpRequest
      (start browser (stop (start browser (new_page example_config empty_storage))))) = 2
   \<and> dispatched (xhr_exchange browser
        (start browser (stop (start browser (new_page example_config empty_storage))))
        example_request example_stamp)
       = [(''apiMonitor:requestCaptured'', example_record 0),
          (''apiMonitor:requestCaptured'', example_record 1)]
   \<and> capturedRequests (xhr_exchange browser
        (start browser (stop (start browser (new_page example_config empty_storage))))
        example_request example_stamp)
       = [example_record 0, example_record 1]"
proof -
  let ?p = "start browser (stop (start browser (new_page example_config empty_storage)))"
  have f: "captures (XMLHttpRequest ?p) = 2" "config ?p = example_config" "dispatched ?p = []"
    "capturedRequests ?p = []" "maxStoredRequests example_config = 2"
    "req_url example_request = ''https://example.com/api/search?q=1''"
    by (simp_all add: start_wrappers new_page_def example_config_def example_request_def)
  have u: "[0 ..< 2] = [0, Suc 0]" by (simp add: upt_rec)
  have r: "request_record browser ?p example_request (example_stamp 0) = example_record 0"
    "request_record browser ?p example_request (example_stamp (Suc 0)) = example_record 1"
    using example_record_built [of ?p 0] example_record_built [of ?p 1] f(2) by simp_all
  have g: "send_gate browser (config ?p) (req_url example_request)"
    using example_gate f(2,6) by simp
  show ?thesis
    using xhr_exchange_matched [OF g example_request_fields(2), of example_stamp] f r u
    by (simp add: push_bounded_def)
qed

subsection \<open>C4: the URL classifier\<close>

text \<open>
  Claim C4, as amended. For every string \<open>u\<close>, \<^verbatim>\<open>parseURL\<close> returns a pair, by these cases:
  when \<open>u\<close> starts with the four characters \<^verbatim>\<open>http\<close> and the URL constructor accepts it, the
  parsed host name and path; when \<open>u\<close> starts with \<^verbatim>\<open>http\<close> and the constructor throws, the
  host name of the page (\<^verbatim>\<open>unknown\<close> when that is empty) and \<open>u\<close> itself; when \<open>u\<close> does not
  start with \<^verbatim>\<open>http\<close> but with a slash, the host name of the page and \<open>u\<close> itself; otherwise
  the host name of the page and the current path cut after its last slash, followed by \<open>u\<close>.
  The test is the prefix \<^verbatim>\<open>http\<close>, not the presence of a scheme.
\<close>

theorem parseURL_cases:
  "(prefix ''http'' u \<and> URL_new h u = Some (hst, pth)
      \<longrightarrow> parseURL h u = \<lparr>domain = hst, path = pth\<rparr>)
   \<and> (prefix ''http'' u \<and> URL_new h u = None
      \<longrightarrow> parseURL h u =
            \<lparr>domain = (if location_hostname h = [] then ''unknown'' else location_hostname h),
             path = u\<rparr>)
   \<and> (\<not> prefix ''http'' u \<and> prefix ''/'' u
      \<longrightarrow> parseURL h u = \<lparr>domain = location_hostname h, path = u\<rparr>)
   \<and> (\<not> prefix ''http'' u \<and> \<not> prefix ''/'' u
      \<longrightarrow> (\<exists>dir file. location_pathname h = dir @ file \<and> CHR ''/'' \<notin> set file
             \<and> (dir = [] \<or> last dir = CHR ''/'')
             \<and> parseURL h u = \<lparr>domain = location_hostname h, path = dir @ u\<rparr>))"
proof -
  have absolute: "parseURL h u = \<lparr>domain = hst, path = pth\<rparr>"
    if "prefix ''http'' u" "URL_new h u = Some (hst, pth)"
    using that by (simp add: parseURL_def parseURL_try_def startsWith_prefix)
  have thrown: "parseURL h u =
      \<lparr>domain = (if location_hostname h = [] then ''unknown'' else location_hostname h),
       path = u\<rparr>"
    if "prefix ''http'' u" "URL_new h u = None"
    using that by (simp add: parseURL_def parseURL_try_def startsWith_prefix)
  have rooted: "parseURL h u = \<lparr>domain = location_hostname h, path = u\<rparr>"
    if "\<not> prefix ''http'' u" "prefix ''/'' u"
    using that by (simp add: parseURL_def parseURL_try_def startsWith_prefix)
  have relative: "\<exists>dir file. location_pathname h = dir @ file \<and> CHR ''/'' \<notin> set file
             \<and> (dir = [] \<or> last dir = CHR ''/'')
             \<and> parseURL h u = \<lparr>domain = location_hostname h, path = dir @ u\<rparr>"
    if "\<not> prefix ''http'' u" "\<not> prefix ''/'' u"
  proof -
    let ?dir = "substring (location_pathname h) 0 (lastIndexOf (location_pathname h) (CHR ''/'') + 1)"
    obtain leaf where "location_pathname h = ?dir @ leaf" "CHR ''/'' \<notin> set leaf"
        "?dir = [] \<or> last ?dir = CHR ''/''"
      using basePath_split [of "location_pathname h"] by blast
    moreover have "parseURL h u = \<lparr>domain = location_hostname h, path = ?dir @ u\<rparr>"
      using that by (simp add: parseURL_def parseURL_try_def startsWith_prefix Let_def)
    ultimately show ?thesis by blast
  qed
  show ?thesis using absolute thrown rooted relative by blast
qed

text \<open>The four cases on the example page \<^verbatim>\<open>https://air.1688.com/app/index.html\<close>.\<close>

theorem parseURL_cases_witness:
  "parseURL browser ''https://example.com/api/search?q=1''
     = \<lparr>domain = ''example.com'', path = ''/api/search''\<rparr>
   \<and> parseURL browser ''http-status'' = \<lparr>domain = ''air.1688.com'', path = ''http-status''\<rparr>
   \<and> parseURL browser ''/h5/list'' = \<lparr>domain = ''air.1688.com'', path = ''/h5/list''\<rparr>
   \<and> parseURL browser ''list'' = \<lparr>domain = ''air.1688.com'', path = ''/app/list''\<rparr>"
proof -
  have e: "parseURL browser ''https://example.com/api/search?q=1''
             = \<lparr>domain = ''example.com'', path = ''/api/search''\<rparr>
           \<and> parseURL browser ''http-status'' = \<lparr>domain = ''air.1688.com'', path = ''http-status''\<rparr>
           \<and> parseURL browser ''/h5/list'' = \<lparr>domain = ''air.1688.com'', path = ''/h5/list''\<rparr>
           \<and> parseURL browser ''list'' = \<lparr>domain = ''air.1688.com'', path = ''/app/list''\<rparr>"
    by code_simp
  show ?thesis
    using e parseURL_cases [of "''list''" browser "''air.1688.com''" "''/app/list''"]
    by blast
qed

text \<open>
  Claim C4 as stated fails twice. The URL \<^verbatim>\<open>ftp://files.example.com/pub/x\<close> has a scheme, and
  the URL constructor reads its host and path; the classifier returns the host of the page
  and glues the whole URL to the directory of the page. The relative URL \<^verbatim>\<open>http-status\<close>
  does not start with a slash; its path is the raw input, not the directory of the page
  followed by it.
\<close>

theorem parseURL_scheme_counterexample:
  "URL_new browser ''ftp://files.example.com/pub/x'' = Some (''files.example.com'', ''/pub/x'')
   \<and> parseURL browser ''ftp://files.example.com/pub/x''
       = \<lparr>domain = ''air.1688.com'', path = ''/app/ftp://files.example.com/pub/x''\<rparr>
   \<and> path (parseURL browser ''http-status'') \<noteq> ''/app/http-status''"
  by code_simp

subsection \<open>C5: the payload parser\<close>

text \<open>
  Claim C5, as amended. For every value given to \<^verbatim>\<open>parseData\<close>: a falsy value (\<^verbatim>\<open>undefined\<close>,
  \<^verbatim>\<open>null\<close>, \<^verbatim>\<open>false\<close>, \<^verbatim>\<open>0\<close>, the empty string) gives \<^verbatim>\<open>null\<close>; a non-empty string that
  parses as JSON gives the parsed value; a non-empty string that fails to parse is returned
  unchanged; every truthy value that is not a string is returned unchanged.
\<close>

theorem parseData_cases:
  "(\<not> truthy v \<longrightarrow> parseData h v = JNull)
   \<and> (s \<noteq> [] \<and> JSON_parse h s = Some w \<longrightarrow> parseData h (JStr s) = w)
   \<and> (s \<noteq> [] \<and> JSON_parse h s = None \<longrightarrow> parseData h (JStr s) = JStr s)
   \<and> (truthy v \<and> (\<forall>t. v \<noteq> JStr t) \<longrightarrow> parseData h v = v)"
  by (cases v) (auto simp: parseData_def)

theorem parseData_cases_witness:
  "parseData browser JUndefined = JNull
   \<and> parseData browser (JStr ''{\"ok\":true}'') = JObj [(''ok'', JBool True)]
   \<and> parseData browser (JStr ''q=1'') = JStr ''q=1''
   \<and> parseData browser (JObj [(''q'', JNum 1)]) = JObj [(''q'', JNum 1)]"
proof -
  have e: "\<not> truthy JUndefined"
    "''{\"ok\":true}'' \<noteq> []"
    "JSON_parse browser ''{\"ok\":true}'' = Some (JObj [(''ok'', JBool True)])"
    "''q=1'' \<noteq> []" "JSON_parse browser ''q=1'' = None"
    "truthy (JObj [(''q'', JNum 1)])" "\<forall>t. JObj [(''q'', JNum 1)] \<noteq> JStr t"
    by (simp, simp, code_simp, simp, code_simp, simp, simp)
  show ?thesis
    using e parseData_cases [of JUndefined browser "''{\"ok\":true}''" "JObj [(''ok'', JBool True)]"]
      parseData_cases [of "JObj [(''q'', JNum 1)]" browser "''q=1''"]
    by blast
qed

text \<open>
  Claim C5 as stated fails on falsy input: the empty string does not parse as JSON and comes
  back as \<^verbatim>\<open>null\<close>, not unchanged; the number zero and \<^verbatim>\<open>false\<close> are not strings and come
  back as \<^verbatim>\<open>null\<close>, not unchanged.
\<close>

theorem parseData_falsy_counterexample:
  "JSON_parse browser '''' = None
   \<and> parseData browser (JStr '''') \<noteq> JStr ''''
   \<and> parseData browser (JNum 0) \<noteq> JNum 0
   \<and> parseData browser (JBool False) \<noteq> JBool False"
  by code_simp

subsection \<open>C6: mirroring and restoring\<close>




subsection \<open>C7: download\<close>




subsection \<open>C8: clear\<close>

text \<open>
  Claim C8, as amended. For every monitor state, \<^verbatim>\<open>clear\<close> empties the log, so that
  \<^verbatim>\<open>getRequests\<close> returns the empty list afterwards; it dispatches one event, \<^verbatim>\<open>dataCleared\<close>,
  and so calls every handler registered for it once; and it writes the serialised empty
  log to storage: the storage entry is that text when the host serialises the empty log and
  \<^verbatim>\<open>setItem\<close> accepts it, and the storage is what it was when either throws.
\<close>

theorem clear_effects:
  "capturedRequests (clear h p) = []
   \<and> getRequests (clear h p) = []
   \<and> dispatched (clear h p) = dispatched p @ [(''apiMonitor:dataCleared'', JNull)]
   \<and> calls (clear h p)
       = calls p @ map (invoke ''apiMonitor:dataCleared'' JNull \<circ> snd)
                       (filter (\<lambda>l. fst l = ''apiMonitor:dataCleared'') (listeners p))
   \<and> (write_accepted h (localStorage p) (storageKey (config p)) []
        \<longrightarrow> mirrored h (clear h p))
   \<and> (\<not> write_accepted h (localStorage p) (storageKey (config p)) []
        \<longrightarrow> localStorage (clear h p) = localStorage p)"
  using clear_mirrors [of h p] by (simp add: getRequests_def clear_calls)

text \<open>A log of one record with one handler registered, on a storage with room and on one
  that takes nothing.\<close>

theorem clear_effects_witness:
  "getRequests (clear browser
      (on (saveRequest browser (new_page example_config empty_storage) record_A) ''dataCleared'' 7))
     = []
   \<and> dispatched (clear browser
        (on (saveRequest browser (new_page example_config empty_storage) record_A) ''dataCleared'' 7))
       = [(''apiMonitor:requestCaptured'', record_A), (''apiMonitor:dataCleared'', JNull)]
   \<and> calls (clear browser
        (on (saveRequest browser (new_page example_config empty_storage) record_A) ''dataCleared'' 7))
       = [(7, Detail JNull)]
   \<and> mirrored browser (clear browser
        (on (saveRequest browser (new_page example_config empty_storage) record_A) ''dataCleared'' 7))
   \<and> localStorage (clear browser (saveRequest browser (new_page example_config no_storage) record_A))
       = localStorage (saveRequest browser (new_page example_config no_storage) record_A)"
proof -
  let ?p = "on (saveRequest browser (new_page example_config empty_storage) record_A) ''dataCleared'' 7"
  let ?n = "saveRequest browser (new_page example_config no_storage) record_A"
  have w0: "write_accepted browser empty_storage ''api_monitor_requests'' [record_A]"
    by (simp add: write_accepted_def browser_def stringify_model_def record_A_def quote_def
          newline_def setItem_def usage_def empty_storage_def)
  have c0: "capturedRequests (saveRequest browser (new_page example_config empty_storage) record_A)
              = [record_A]"
    by (simp add: saveRequest_push push_bounded_def new_page_def example_config_def)
  have st: "localStorage ?p
      = \<lparr>items = [(''api_monitor_requests'', ''[{\"id\":\"A\",\"type\":\"xhr\"}]'')],
         quota = 5000000\<rparr>"
    by (simp add: on_def saveRequest_storage saveToStorage_storage push_bounded_def new_page_def
          example_config_def DEFAULT_CONFIG_def browser_def stringify_model_def record_A_def
          quote_def newline_def setItem_def usage_def empty_storage_def)
  have k: "storageKey (config ?p) = ''api_monitor_requests''"
    "storageKey (config ?n) = ''api_monitor_requests''"
    by (simp_all add: on_def new_page_def example_config_def DEFAULT_CONFIG_def)
  have w1: "write_accepted browser (localStorage ?p) (storageKey (config ?p)) []"
    unfolding st k
    by (simp add: write_accepted_def browser_def stringify_model_def setItem_def usage_def)
  have sn: "localStorage ?n = no_storage"
    by (simp add: saveRequest_storage saveToStorage_storage push_bounded_def new_page_def
          example_config_def DEFAULT_CONFIG_def browser_def stringify_model_def record_A_def
          quote_def newline_def setItem_def usage_def no_storage_def)
  have w2: "\<not> write_accepted browser (localStorage ?n) (storageKey (config ?n)) []"
    unfolding sn k by code_simp
  have d: "dispatched ?p = [(''apiMonitor:requestCaptured'', record_A)]"
    "calls ?p = []" "listeners ?p = [(''apiMonitor:dataCleared'', Wrapper 7)]"
    by (simp_all add: on_def new_page_def record_A_def saveRequest_def Let_def triggerEvent_def
          dispatchEvent_def)
  show ?thesis
    using clear_effects [of browser ?p] clear_effects [of browser ?n] w1 w2 d
    by simp
qed

text \<open>
  Claim C8 as stated fails where the storage takes nothing: the monitor holds one record in
  memory, \<^verbatim>\<open>clear\<close> empties the log and dispatches the event, and the storage holds no entry
  afterwards, so the empty state was not persisted.
\<close>

theorem clear_persist_counterexample:
  "capturedRequests (saveRequest browser (new_page example_config no_storage) record_A) \<noteq> []
   \<and> getItem (localStorage (clear browser
          (saveRequest browser (new_page example_config no_storage) record_A)))
        (storageKey example_config) = None
   \<and> \<not> mirrored browser (clear browser
          (saveRequest browser (new_page example_config no_storage) record_A))"
proof -
  let ?n = "saveRequest browser (new_page example_config no_storage) record_A"
  have c: "capturedRequests ?n = [record_A]"
    by (simp add: new_page_def example_config_def saveRequest_push push_bounded_def)
  have k: "storageKey (config ?n) = ''api_monitor_requests''"
    "storageKey example_config = ''api_monitor_requests''"
    by (simp_all add: new_page_def example_config_def DEFAULT_CONFIG_def)
  have sn: "localStorage ?n = no_storage"
    by (simp add: saveRequest_storage saveToStorage_storage push_bounded_def new_page_def
          example_config_def DEFAULT_CONFIG_def browser_def stringify_model_def record_A_def
          quote_def newline_def setItem_def usage_def no_storage_def)
  have w: "\<not> write_accepted browser (localStorage ?n) (storageKey (config ?n)) []"
    unfolding sn k by code_simp
  have s: "localStorage (clear browser ?n) = no_storage"
    using clear_mirrors [of browser ?n] w sn by simp
  have g: "getItem no_storage ''api_monitor_requests'' = None"
    by (simp add: getItem_def no_storage_def)
  have "\<not> mirrored browser (clear browser ?n)"
    using s g k by (simp add: mirrored_def split: option.split)
  then show ?thesis using c s g k by simp
qed

subsection \<open>C9: capacity at load time\<close>

text \<open>
  Claim C9 on a monitor configured with \<^verbatim>\<open>maxStoredRequests: 0\<close> over a storage that holds three
  records. All three are there after construction, as the claim has it. The next
  \<^verbatim>\<open>saveRequest\<close> is to trim the log to \<^verbatim>\<open>maxStoredRequests\<close> records, that is to none;
  \<^verbatim>\<open>slice(-0)\<close> is \<^verbatim>\<open>slice(0)\<close>, the whole array, and the log holds four records.
\<close>

theorem restored_log_kept_at_zero_capacity:
  "monitor_of (APIMonitor browser (example_config\<lparr>maxStoredRequests := 0\<rparr>) stored_ABC) \<noteq> None
   \<and> getRequests (the (monitor_of
        (APIMonitor browser (example_config\<lparr>maxStoredRequests := 0\<rparr>) stored_ABC)))
       = [record_A, record_B, record_C]
   \<and> getRequests (saveRequest browser
        (the (monitor_of (APIMonitor browser (example_config\<lparr>maxStoredRequests := 0\<rparr>) stored_ABC)))
        record_D)
       = [record_A, record_B, record_C, record_D]"
proof -
  let ?stored = "''[{\"id\":\"A\",\"type\":\"xhr\"},{\"id\":\"B\",\"type\":\"xhr\"},{\"id\":\"C\",\"type\":\"xhr\"}]''"
  let ?cfg = "example_config\<lparr>maxStoredRequests := 0\<rparr>"
  have e1: "getItem stored_ABC (storageKey ?cfg) = Some ?stored"
    by (simp add: getItem_def stored_ABC_def example_config_def DEFAULT_CONFIG_def)
  have e2: "?stored \<noteq> []" by simp
  have e3: "JSON_parse browser ?stored = Some (JArr [record_A, record_B, record_C])"
    by code_simp
  have e4: "enableUI ?cfg \<and> document_body browser
              \<longrightarrow> list_all renders [record_A, record_B, record_C]"
    by (simp add: record_A_def record_B_def record_C_def renders_def property_def)
  from APIMonitor_restores [OF e1 e2 e3 e4]
  obtain q where q: "APIMonitor browser ?cfg stored_ABC = Some (Inr q)"
    "capturedRequests q = [record_A, record_B, record_C]" "config q = ?cfg"
    by blast
  show ?thesis
    using q by (simp add: getRequests_def saveRequest_push push_bounded_def slice_def)
qed

subsection \<open>C10: the event bus\<close>

text \<open>
  Claim C10. \<^verbatim>\<open>on\<close> registers a wrapper around the handler; no call of \<^verbatim>\<open>off\<close>, with whatever
  arguments, removes a wrapper; and every emission of the event in a state where the wrapper
  is registered calls the handler with the detail and leaves the listeners as they were. So
  after \<^verbatim>\<open>on(e, cb)\<close> and \<^verbatim>\<open>off(e, cb)\<close> an emission of \<open>e\<close> still calls \<open>cb\<close>.
\<close>

theorem off_keeps_handler:
  "(''apiMonitor:'' @ e, Wrapper cb) \<in> set (listeners (on p e cb))
   \<and> ((t, Wrapper cb) \<in> set (listeners q) \<longrightarrow> (t, Wrapper cb) \<in> set (listeners (off q e' cb')))
   \<and> ((''apiMonitor:'' @ e, Wrapper cb) \<in> set (listeners q)
        \<longrightarrow> (cb, Detail (if d = JUndefined then JNull else d))
              \<in> set (drop (length (calls q)) (calls (triggerEvent q e d)))
            \<and> listeners (triggerEvent q e d) = listeners q)
   \<and> (cb, Detail (if d = JUndefined then JNull else d))
        \<in> set (drop (length (calls p)) (calls (triggerEvent (off (on p e cb) e cb) e d)))"
proof -
  have reg: "(''apiMonitor:'' @ e, Wrapper cb) \<in> set (listeners (on p e cb))"
    by (simp add: on_def)
  have keep: "(t, Wrapper cb) \<in> set (listeners (off q e' cb'))"
    if "(t, Wrapper cb) \<in> set (listeners q)" for t q e' cb'
    using that by (simp add: off_def)
  have emit: "(cb, Detail (if d = JUndefined then JNull else d))
              \<in> set (drop (length (calls q)) (calls (triggerEvent q e d)))
            \<and> listeners (triggerEvent q e d) = listeners q"
    if "(''apiMonitor:'' @ e, Wrapper cb) \<in> set (listeners q)" for q
  proof -
    have "invoke (''apiMonitor:'' @ e) (if d = JUndefined then JNull else d) (Wrapper cb)
            \<in> set (map (invoke (''apiMonitor:'' @ e) (if d = JUndefined then JNull else d) \<circ> snd)
                       (filter (\<lambda>l. fst l = ''apiMonitor:'' @ e) (listeners q)))"
      using that by (force simp: image_iff)
    then show ?thesis by (simp add: triggerEvent_def dispatchEvent_def)
  qed
  have same: "calls (off (on p e cb) e cb) = calls p" by (simp add: off_def on_def)
  have "(cb, Detail (if d = JUndefined then JNull else d))
        \<in> set (drop (length (calls (off (on p e cb) e cb)))
                   (calls (triggerEvent (off (on p e cb) e cb) e d)))"
    using emit [OF keep [OF reg, of e cb]] by blast
  then have "(cb, Detail (if d = JUndefined then JNull else d))
        \<in> set (drop (length (calls p)) (calls (triggerEvent (off (on p e cb) e cb) e d)))"
    unfolding same .
  then show ?thesis using reg keep emit by blast
qed

text \<open>A handler registered for \<^verbatim>\<open>dataCleared\<close> and then removed with \<^verbatim>\<open>off\<close> is called by each
  of two later emissions.\<close>

theorem off_keeps_handler_witness:
  "listeners (off (on (new_page example_config empty_storage) ''dataCleared'' 7) ''dataCleared'' 7)
     = [(''apiMonitor:dataCleared'', Wrapper 7)]
   \<and> calls (triggerEvent (triggerEvent
        (off (on (new_page example_config empty_storage) ''dataCleared'' 7) ''dataCleared'' 7)
        ''dataCleared'' JUndefined) ''dataCleared'' JUndefined)
     = [(7, Detail JNull), (7, Detail JNull)]"
proof -
  let ?q = "off (on (new_page example_config empty_storage) ''dataCleared'' 7) ''dataCleared'' 7"
  have l: "listeners ?q = [(''apiMonitor:dataCleared'', Wrapper 7)]"
    by (simp add: off_def on_def new_page_def)
  have c: "calls (triggerEvent (triggerEvent ?q ''dataCleared'' JUndefined) ''dataCleared'' JUndefined)
     = [(7, Detail JNull), (7, Detail JNull)]"
    by (simp add: triggerEvent_def dispatchEvent_def off_def on_def new_page_def)
  show ?thesis
    using l c off_keeps_handler [of "''dataCleared''" 7 "new_page example_config empty_storage"
        "''apiMonitor:dataCleared''" ?q "''dataCleared''" 7 JUndefined]
    by blast
qed

end
